theory Spec2Isabelle
  imports Complex_Main "HOL-Library.Sublist"
begin

section \<open>JavaScript string primitives\<close>

text \<open>
  Strings are lists of code units; a \<^typ>\<open>char\<close> stands for a code unit below 256
  (Latin-1).  \<open>toLowerCase\<close> adds 32 to the upper-case letters of that range, i.e. sets
  bit 5; \<open>trim\<close> strips the white space and line terminators of that range.
\<close>

definition isUpperChar :: "char \<Rightarrow> bool" where
  "isUpperChar c \<longleftrightarrow> (let n = (of_char c :: nat) in
     (65 \<le> n \<and> n \<le> 90) \<or> (192 \<le> n \<and> n \<le> 214) \<or> (216 \<le> n \<and> n \<le> 222))"

definition toLowerChar :: "char \<Rightarrow> char" where
  "toLowerChar c = (if isUpperChar c
     then (case c of Char b0 b1 b2 b3 b4 b5 b6 b7 \<Rightarrow> Char b0 b1 b2 b3 b4 True b6 b7)
     else c)"

definition toLowerCase :: "string \<Rightarrow> string" where
  "toLowerCase s = map toLowerChar s"

definition isWhiteSpace :: "char \<Rightarrow> bool" where
  "isWhiteSpace c \<longleftrightarrow> (let n = (of_char c :: nat) in (9 \<le> n \<and> n \<le> 13) \<or> n = 32 \<or> n = 160)"

definition trim :: "string \<Rightarrow> string" where
  "trim s = rev (dropWhile isWhiteSpace (rev (dropWhile isWhiteSpace s)))"

definition startsWith :: "string \<Rightarrow> string \<Rightarrow> bool" where
  "startsWith s p \<longleftrightarrow> prefix p s"

definition endsWith :: "string \<Rightarrow> string \<Rightarrow> bool" where
  "endsWith s p \<longleftrightarrow> prefix (rev p) (rev s)"

text \<open>\<open>s.includes(p)\<close>: \<open>p\<close> occurs in \<open>s\<close> as a contiguous substring.\<close>

fun includes_s :: "string \<Rightarrow> string \<Rightarrow> bool" where
  "includes_s [] p = (p = [])"
| "includes_s (c # cs) p = (prefix p (c # cs) \<or> includes_s cs p)"

text \<open>\<open>s.split(sep)\<close> for a one-character separator; the result is never empty.\<close>

fun split_on :: "char \<Rightarrow> string \<Rightarrow> string list" where
  "split_on sep [] = [] # []"
| "split_on sep (c # cs) =
     (if c = sep then [] # split_on sep cs
      else (case split_on sep cs of
              [] \<Rightarrow> [c] # []
            | w # ws \<Rightarrow> (c # w) # ws))"

text \<open>
  The destructuring \<open>const [localpart, domain] = email.split('@')\<close>: the first piece,
  and the second one when there is one (\<open>undefined\<close> otherwise).
\<close>

definition splitAt :: "string \<Rightarrow> string \<times> string option" where
  "splitAt email = (case split_on (CHR ''@'') email of
       [] \<Rightarrow> ([], None)
     | [l] \<Rightarrow> (l, None)
     | l # d # _ \<Rightarrow> (l, Some d))"

text \<open>
  Regular expressions with the \<open>i\<close> flag and ASCII-only patterns: a code unit of the
  input matches a pattern letter iff it is that letter in either case, so the test is run
  on the input with \<open>A\<close>..\<open>Z\<close> folded to lower case.
\<close>

definition foldChar :: "char \<Rightarrow> char" where
  "foldChar c = (if (65::nat) \<le> of_char c \<and> of_char c \<le> (90::nat) then toLowerChar c else c)"

definition foldCase :: "string \<Rightarrow> string" where
  "foldCase s = map foldChar s"

text \<open>\<open>/(p1|p2|...)/i.test(s)\<close> for literal lower-case alternatives.\<close>

definition testAnyCI :: "string list \<Rightarrow> string \<Rightarrow> bool" where
  "testAnyCI pats s \<longleftrightarrow> list_ex (includes_s (foldCase s)) pats"

definition isAsciiLetter :: "char \<Rightarrow> bool" where
  "isAsciiLetter c \<longleftrightarrow> (let n = (of_char (foldChar c) :: nat) in 97 \<le> n \<and> n \<le> 122)"

definition isDigit :: "char \<Rightarrow> bool" where
  "isDigit c \<longleftrightarrow> (let n = (of_char c :: nat) in 48 \<le> n \<and> n \<le> 57)"

section \<open>Email classification and scoring (validators/email.mjs)\<close>

datatype emailType = Role | Personal | Generic | Unknown

text \<open>\<open>ROLE_LOCALPARTS = /^(info|kontakt|...|service)$/i\<close>: the whole string is one of the words.\<close>

definition ROLE_LOCALPARTS :: "string \<Rightarrow> bool" where
  "ROLE_LOCALPARTS s \<longleftrightarrow> foldCase s \<in> set
     [''info'', ''kontakt'', ''support'', ''sales'', ''kundtjanst'', ''office'', ''hej'',
      ''hello'', ''contact'', ''admin'', ''webmaster'', ''inquiry'', ''service'']"

text \<open>\<open>GENERIC_DOMAINS = /@(gmail|hotmail|...|mail\.com)/i\<close>.\<close>

definition GENERIC_DOMAINS :: "string \<Rightarrow> bool" where
  "GENERIC_DOMAINS s \<longleftrightarrow> testAnyCI
     [''@gmail'', ''@hotmail'', ''@outlook'', ''@yahoo'', ''@live'', ''@icloud'',
      ''@protonmail'', ''@me.com'', ''@aol'', ''@gmx'', ''@mail.com''] s"

text \<open>\<open>/^[a-z]{1,2}$|^no-?reply/i.test(localpart)\<close>.\<close>

definition shortOrNoReply :: "string \<Rightarrow> bool" where
  "shortOrNoReply l \<longleftrightarrow>
     ((length l = 1 \<or> length l = 2) \<and> list_all isAsciiLetter l)
     \<or> startsWith (foldCase l) ''noreply'' \<or> startsWith (foldCase l) ''no-reply''"

text \<open>
  \<open>classifyEmail(email, siteHost)\<close> returns \<open>{emailType, mxValid}\<close>.  The MX lookup is
  the parameter \<open>mx\<close>: \<open>None\<close> when \<open>ENABLE_MX_CHECK\<close> is off, otherwise the function that
  tells whether \<open>dns.resolveMx(domain)\<close> answered with at least one record (a failed lookup
  counts as no record).
\<close>

definition classifyEmail :: "(string \<Rightarrow> bool) option \<Rightarrow> string \<Rightarrow> string \<Rightarrow> emailType \<times> bool" where
  "classifyEmail mx email siteHost =
     (case splitAt email of
        (localpart, None) \<Rightarrow> (Unknown, False)
      | (localpart, Some domain) \<Rightarrow>
          if localpart = [] \<or> domain = [] then (Unknown, False)
          else
            (let emailType =
               (if ROLE_LOCALPARTS localpart then Role
                else if GENERIC_DOMAINS email then Personal
                else if endsWith domain siteHost \<or> endsWith siteHost domain then
                  (if shortOrNoReply localpart then Generic else Role)
                else Unknown);
                 mxValid = (case mx of None \<Rightarrow> True | Some resolves \<Rightarrow> resolves domain)
             in (emailType, mxValid)))"

text \<open>\<open>scoreEmail(email, emailType, siteHost)\<close>: an integer score, clamped at the end.\<close>

definition rawScore :: "string \<Rightarrow> emailType \<Rightarrow> string \<Rightarrow> int" where
  "rawScore email emailType siteHost =
     (case splitAt email of (localpart, domain) \<Rightarrow>
        50
        + (case domain of
             None \<Rightarrow> 0
           | Some d \<Rightarrow> if d \<noteq> [] \<and> (endsWith d siteHost \<or> endsWith siteHost d) then 30 else 0)
        + (if emailType = Role then 20 else 0)
        - (if emailType = Personal then 10 else 0)
        - (if emailType = Generic then 20 else 0)
        + (if ROLE_LOCALPARTS localpart then 10 else 0)
        - (if testAnyCI [''noreply'', ''no-reply'', ''donotreply''] email then 50 else 0)
        - (if testAnyCI [''test'', ''example'', ''placeholder''] email then 50 else 0))"

definition scoreEmail :: "string \<Rightarrow> emailType \<Rightarrow> string \<Rightarrow> int" where
  "scoreEmail email emailType siteHost = max 0 (min 100 (rawScore email emailType siteHost))"

section \<open>Captcha detection (captcha.mjs)\<close>

definition hasCaptcha :: "string \<Rightarrow> bool" where
  "hasCaptcha html \<longleftrightarrow> list_ex (\<lambda>pattern. testAnyCI [pattern] html)
     [''recaptcha'', ''hcaptcha'', ''cloudflare'', ''cf-browser-verification'',
      ''just a moment'', ''attention required'', ''challenge-platform'',
      ''g-recaptcha'', ''grecaptcha'']"

definition getCaptchaType :: "string \<Rightarrow> string option" where
  "getCaptchaType html =
     (if testAnyCI [''g-recaptcha'', ''grecaptcha'', ''recaptcha''] html then Some ''recaptcha''
      else if testAnyCI [''hcaptcha''] html then Some ''hcaptcha''
      else if testAnyCI [''cloudflare'', ''cf-browser-verification'', ''challenge-platform''] html
        then Some ''cloudflare''
      else None)"

record captchaResult =
  skip :: bool
  skipReason :: "string option"

definition handleCaptcha :: "string \<Rightarrow> string \<Rightarrow> captchaResult" where
  "handleCaptcha url html =
     (case getCaptchaType html of
        Some captchaType \<Rightarrow>
          (if captchaType \<noteq> [] then
             \<lparr>skip = True, skipReason = Some (''Captcha detected ('' @ captchaType @ '')'')\<rparr>
           else \<lparr>skip = False, skipReason = None\<rparr>)
      | None \<Rightarrow> \<lparr>skip = False, skipReason = None\<rparr>)"

section \<open>Safe-URL gate (validators/url.mjs)\<close>

text \<open>The entries of \<open>BLOCKED_IP_PATTERNS\<close>, in the order of the source; they are case sensitive.\<close>

definition pat172 :: "string \<Rightarrow> bool" where
  "pat172 s \<longleftrightarrow> startsWith s ''172.'' \<and>
     (case drop 4 s of
        a # b # d # _ \<Rightarrow>
          ((a = CHR ''1'' \<and> b \<in> set ''6789'')
           \<or> (a = CHR ''2'' \<and> b \<in> set ''0123456789'')
           \<or> (a = CHR ''3'' \<and> b \<in> set ''01''))
          \<and> d = CHR ''.''
      | _ \<Rightarrow> False)"

definition BLOCKED_IP_PATTERNS :: "(string \<Rightarrow> bool) list" where
  "BLOCKED_IP_PATTERNS =
     [\<lambda>s. startsWith s ''127.'',
      \<lambda>s. startsWith s ''10.'',
      pat172,
      \<lambda>s. startsWith s ''192.168.'',
      \<lambda>s. startsWith s ''169.254.'',
      \<lambda>s. s = ''::1'',
      \<lambda>s. startsWith s ''fe80:'',
      \<lambda>s. startsWith s ''fc00:'',
      \<lambda>s. startsWith s ''0.'']"

definition blockedIp :: "string \<Rightarrow> bool" where
  "blockedIp s \<longleftrightarrow> list_ex (\<lambda>pattern. pattern s) BLOCKED_IP_PATTERNS"

text \<open>
  What \<open>isSafeUrl\<close> takes from the platform: \<open>new URL(url)\<close> (\<open>None\<close> when it throws),
  \<open>net.isIP\<close> (0, 4 or 6) and \<open>dns.resolve4\<close> (\<open>None\<close> when the lookup fails).
\<close>

record url =
  protocol :: string
  hostname :: string
  pathname :: string

record resolver =
  parseURL :: "string \<Rightarrow> url option"
  isIP :: "string \<Rightarrow> nat"
  resolve4 :: "string \<Rightarrow> string list option"

record safety =
  safe :: bool
  safeReason :: "string option"

definition isSafeUrl :: "resolver \<Rightarrow> string \<Rightarrow> safety" where
  "isSafeUrl r u =
     (case parseURL r u of
        None \<Rightarrow> \<lparr>safe = False, safeReason = Some ''Invalid URL format''\<rparr>
      | Some p \<Rightarrow>
          if protocol p \<notin> set [''http:'', ''https:''] then
            \<lparr>safe = False, safeReason = Some ''Invalid protocol (only HTTP/HTTPS allowed)''\<rparr>
          else if isIP r (hostname p) \<noteq> 0 \<and> blockedIp (hostname p) then
            \<lparr>safe = False, safeReason = Some ''Private IP address blocked''\<rparr>
          else
            (case resolve4 r (hostname p) of
               None \<Rightarrow> \<lparr>safe = True, safeReason = None\<rparr>
             | Some addresses \<Rightarrow>
                 if list_ex blockedIp addresses then
                   \<lparr>safe = False, safeReason = Some ''Domain resolves to private IP''\<rparr>
                 else \<lparr>safe = True, safeReason = None\<rparr>))"

section \<open>Cleaning of extracted emails and phones (crawler.mjs)\<close>

text \<open>
  An extracted evidence item is a plain string or an object \<open>{email, source, confidence}\<close>
  whose \<open>email\<close> may be missing.  Confidences are kept as exact rationals.
\<close>

record evidence =
  ev_email :: "string option"
  ev_source :: string
  ev_confidence :: rat

datatype emailItem = Str string | Obj evidence

record emailData =
  email :: string
  source :: string
  confidence :: rat

definition ALLOWED_TLDS :: "string list" where
  "ALLOWED_TLDS = [''se'', ''com'', ''info'', ''nu'', ''org'', ''net'']"

definition BAD_EMAILS :: "string \<Rightarrow> bool" where
  "BAD_EMAILS s \<longleftrightarrow> testAnyCI
     [''example.com'', ''user@domain.com'', ''noreply'', ''donotreply'', ''no-reply'',
      ''test@'', ''placeholder'', ''u003e''] s"

text \<open>\<open>item.trim().toLowerCase()\<close>, or \<open>item.email?.trim().toLowerCase()\<close> for an object.\<close>

definition itemEmail :: "emailItem \<Rightarrow> string option" where
  "itemEmail item = (case item of
       Str s \<Rightarrow> Some (toLowerCase (trim s))
     | Obj ev \<Rightarrow> map_option (\<lambda>s. toLowerCase (trim s)) (ev_email ev))"

text \<open>\<open>domain.split('.').pop()?.toLowerCase()\<close>.\<close>

definition tldOf :: "string \<Rightarrow> string option" where
  "tldOf domain = (case rev (split_on (CHR ''.'') domain) of
       [] \<Rightarrow> None
     | t # _ \<Rightarrow> Some (toLowerCase t))"

text \<open>
  The loop of \<open>cleanEmails\<close>, with its two accumulators \<open>out\<close> and \<open>seen\<close>; every
  \<open>continue\<close> of the source is a branch that leaves both unchanged.  \<open>validateEmailFormat\<close>
  wraps the package \<open>email-validator\<close>, which is the parameter \<open>isValidEmail\<close>.
\<close>

fun cleanLoop :: "(string \<Rightarrow> bool) \<Rightarrow> emailItem list \<Rightarrow> emailData list \<Rightarrow> string list \<Rightarrow> emailData list" where
  "cleanLoop isValidEmail [] out seen = out"
| "cleanLoop isValidEmail (item # rest) out seen =
     (case itemEmail item of
        None \<Rightarrow> cleanLoop isValidEmail rest out seen
      | Some e \<Rightarrow>
          if e = [] \<or> e \<in> set seen then cleanLoop isValidEmail rest out seen
          else if BAD_EMAILS e then cleanLoop isValidEmail rest out seen
          else if \<not> isValidEmail e then cleanLoop isValidEmail rest out seen
          else
            (case splitAt e of
               (localpart, None) \<Rightarrow> cleanLoop isValidEmail rest out seen
             | (localpart, Some domain) \<Rightarrow>
                 if localpart = [] \<or> domain = [] then cleanLoop isValidEmail rest out seen
                 else
                   (case tldOf domain of
                      None \<Rightarrow> cleanLoop isValidEmail rest out seen
                    | Some tld \<Rightarrow>
                        if tld = [] \<or> tld \<notin> set ALLOWED_TLDS then cleanLoop isValidEmail rest out seen
                        else cleanLoop isValidEmail rest
                               (out @ [\<lparr>email = e,
                                        source = (case item of Obj ev \<Rightarrow> ev_source ev | Str _ \<Rightarrow> ''unknown''),
                                        confidence = (case item of Obj ev \<Rightarrow> ev_confidence ev | Str _ \<Rightarrow> 1 / 2)\<rparr>])
                               (seen @ [e]))))"

text \<open>\<open>cleanEmails(emails, siteHost)\<close>; \<open>emails || []\<close> is the \<open>None\<close> case.\<close>

definition cleanEmails :: "(string \<Rightarrow> bool) \<Rightarrow> emailItem list option \<Rightarrow> string \<Rightarrow> emailData list" where
  "cleanEmails isValidEmail emails siteHost =
     cleanLoop isValidEmail (case emails of None \<Rightarrow> [] | Some items \<Rightarrow> items) [] []"

text \<open>A JavaScript \<open>Set\<close> kept in insertion order.\<close>

definition setAdd :: "'a list \<Rightarrow> 'a \<Rightarrow> 'a list" where
  "setAdd xs x = (if x \<in> set xs then xs else xs @ [x])"

definition newSet :: "'a list \<Rightarrow> 'a list" where
  "newSet xs = foldl setAdd [] xs"

text \<open>\<open>text.replace(/&nbsp;/g, ' ')\<close>.\<close>

fun replaceNbsp :: "string \<Rightarrow> string" where
  "replaceNbsp [] = []"
| "replaceNbsp (c # cs) =
     (if prefix ''&nbsp;'' (c # cs) then CHR '' '' # replaceNbsp (drop 5 cs)
      else c # replaceNbsp cs)"

text \<open>
  One attempt of \<open>(\+?\d[\d\s().\-]{5,}\d)\<close> at the head of the input, giving the
  length of the match.  The class is greedy, and the closing \<open>\d\<close> is itself in the
  class, so the match ends at the last digit of the run that leaves five class characters
  before it.
\<close>

definition phoneClass :: "char \<Rightarrow> bool" where
  "phoneClass c \<longleftrightarrow> isDigit c \<or> isWhiteSpace c \<or> c \<in> set ''().-''"

definition matchPhoneAt :: "string \<Rightarrow> nat option" where
  "matchPhoneAt s =
     (let plus = (if prefix ''+'' s then 1 else 0) in
      case drop plus s of
        [] \<Rightarrow> None
      | d # rest \<Rightarrow>
          if \<not> isDigit d then None
          else
            (let run = takeWhile phoneClass rest in
             case rev (filter (\<lambda>j. isDigit (run ! j)) [5..<length run]) of
               [] \<Rightarrow> None
             | j # _ \<Rightarrow> Some (plus + 1 + j + 1)))"

text \<open>The \<open>g\<close> flag: matches are collected left to right, each search resuming after the last match.\<close>

fun matchAllPhones :: "string \<Rightarrow> string list" where
  "matchAllPhones [] = []"
| "matchAllPhones (c # cs) =
     (case matchPhoneAt (c # cs) of
        None \<Rightarrow> matchAllPhones cs
      | Some n \<Rightarrow> take n (c # cs) # matchAllPhones (drop (n - 1) cs))"

text \<open>\<open>/(\d)\1{6,}/.test(e164)\<close>: some digit seven times in a row.\<close>

fun repeatedDigit :: "string \<Rightarrow> bool" where
  "repeatedDigit [] = False"
| "repeatedDigit (c # cs) =
     ((isDigit c \<and> 6 \<le> length cs \<and> list_all (\<lambda>d. d = c) (take 6 cs)) \<or> repeatedDigit cs)"

text \<open>
  What \<open>parsePhoneNumberFromString(cand, 'SE')\<close> of libphonenumber-js answers; the function
  is a parameter, \<open>None\<close> standing for no result or an exception.
\<close>

record phoneNumber =
  isValid :: bool
  country :: "string option"
  number :: string

definition normalizePhone :: "(string \<Rightarrow> phoneNumber option) \<Rightarrow> string \<Rightarrow> string option" where
  "normalizePhone parsePhoneNumberFromString cand0 =
     (let cand1 = filter (\<lambda>c. \<not> (c \<in> set ''().-'' \<or> isWhiteSpace c)) cand0;
          cand = (if prefix ''0'' cand1 then ''+46'' @ drop 1 cand1 else cand1)
      in if \<not> prefix ''+'' cand then None
         else
           (case parsePhoneNumberFromString cand of
              None \<Rightarrow> None
            | Some p \<Rightarrow>
                if isValid p \<and> country p = Some ''SE''
                   \<and> 9 \<le> length (number p) \<and> length (number p) \<le> 15
                   \<and> \<not> repeatedDigit (number p)
                then Some (number p) else None))"

definition parsePhonesFromText :: "(string \<Rightarrow> phoneNumber option) \<Rightarrow> string \<Rightarrow> string list" where
  "parsePhonesFromText parsePhoneNumberFromString text =
     newSet (List.map_filter (normalizePhone parsePhoneNumberFromString)
               (newSet (matchAllPhones (replaceNbsp text))))"

section \<open>Fetcher (fetcher.mjs)\<close>

text \<open>
  What one call of \<open>fetch\<close> can do: reject (with an \<open>AbortError\<close> when the timeout fired,
  or with some other error), or resolve with a response.  Reading the body with
  \<open>res.text()\<close> can reject in the same way.
\<close>

datatype rejection = AbortError | OtherError string

record response =
  status :: nat
  contentType :: "string option"
  bodyText :: "rejection + string"

definition ok :: "response \<Rightarrow> bool" where
  "ok res \<longleftrightarrow> 200 \<le> status res \<and> status res \<le> 299"

text \<open>The values of the \<open>status\<close> label of \<open>crawl_requests_total\<close>.\<close>

datatype crawlStatus =
  Success | Error | Timeout | Blocked | NotFound404 | NonHtml | RobotsBlocked | Captcha

text \<open>What \<open>fetchHtml\<close> throws: \<open>Error(`HTTP ${status}`)\<close>, \<open>Error(`Non-HTML content: ...`)\<close>,
  or the rejection of \<open>fetch\<close> or \<open>res.text()\<close> passed on.\<close>

datatype fetchError = HttpError nat | NonHtmlContent string | Rejected rejection

text \<open>
  A run of \<open>fetchHtml\<close>: what it returns or throws, the \<open>crawlCounter\<close> labels it
  incremented (in order), the retry delays it slept (in milliseconds, in order) and the
  number of requests it sent.
\<close>

record fetchRun =
  outcome :: "fetchError + string"
  counted :: "crawlStatus list"
  delays :: "rat list"
  requests :: nat

text \<open>\<open>parseInt(process.env.MAX_RETRIES) || 3\<close>; \<open>None\<close> is an unset or non-numeric variable.\<close>

definition maxRetries :: "int option \<Rightarrow> int" where
  "maxRetries env = (case env of None \<Rightarrow> 3 | Some n \<Rightarrow> if n = 0 then 3 else n)"

definition backoff :: "nat \<Rightarrow> rat" where
  "backoff attempt = min (1000 * 2 ^ attempt) 8000"

text \<open>The \<open>catch\<close> block of \<open>fetchHtml\<close>: count the failure, then rethrow.\<close>

definition caught :: "fetchError \<Rightarrow> crawlStatus" where
  "caught err = (if err = Rejected AbortError then Timeout else Error)"

definition failed :: "crawlStatus list \<Rightarrow> fetchError \<Rightarrow> fetchRun" where
  "failed before err =
     \<lparr>outcome = Inl err, counted = before @ [caught err], delays = [], requests = 1\<rparr>"

text \<open>
  \<open>fetchHtml(url, attempt)\<close> for one URL.  \<open>MAX_RETRIES\<close> is the constant of the module,
  \<open>network k\<close> is what \<open>fetch\<close> does on the request of attempt \<open>k\<close>, and \<open>random k\<close> is the
  value of \<open>Math.random()\<close> drawn at attempt \<open>k\<close>.  The recursive call is returned without
  \<open>await\<close>, so the \<open>catch\<close> block of the caller does not see its failure.
\<close>

function fetchHtml :: "int \<Rightarrow> (nat \<Rightarrow> rejection + response) \<Rightarrow> (nat \<Rightarrow> rat) \<Rightarrow> nat \<Rightarrow> fetchRun" where
  "fetchHtml MAX_RETRIES network random attempt =
     (case network attempt of
        Inl rej \<Rightarrow> failed [] (Rejected rej)
      | Inr res \<Rightarrow>
          if \<not> ok res \<and> 500 \<le> status res \<and> int attempt < MAX_RETRIES then
            (let jitter = random attempt * 1000;
                 retryDelay = backoff attempt + jitter;
                 run = fetchHtml MAX_RETRIES network random (attempt + 1)
             in run\<lparr>delays := retryDelay # delays run, requests := Suc (requests run)\<rparr>)
          else if \<not> ok res then
            failed [if status res = 403 \<or> status res = 429 then Blocked
                    else if status res = 404 then NotFound404
                    else Error]
                   (HttpError (status res))
          else
            (let ct = (case contentType res of None \<Rightarrow> [] | Some c \<Rightarrow> c) in
             if \<not> includes_s ct ''text/html'' then failed [NonHtml] (NonHtmlContent ct)
             else
               (case bodyText res of
                  Inl rej \<Rightarrow> failed [] (Rejected rej)
                | Inr html \<Rightarrow>
                    \<lparr>outcome = Inr html, counted = [Success], delays = [], requests = 1\<rparr>)))"
  by pat_completeness auto
termination
  by (relation "measure (\<lambda>(m, n, r, attempt). nat (m - int attempt))") auto

declare fetchHtml.simps [simp del]

section \<open>Contact records (models/ContactRecord.mjs)\<close>

text \<open>
  The values an optional argument can take: absent (\<open>undefined\<close>), \<open>null\<close>, or a string,
  as the schema of the record types them.
\<close>

datatype jsval = JUndefined | JNull | JString string

record socialArg =
  sa_linkedin :: jsval
  sa_facebook :: jsval
  sa_x :: jsval

record contactArgs =
  a_sourceUrl :: string
  a_domain :: string
  a_email :: string
  a_emailType :: emailType
  a_confidence :: rat
  a_discoveryPath :: string
  a_phone :: jsval
  a_contactPage :: jsval
  a_social :: "socialArg option option"
  a_rawEvidence :: jsval
  a_timestamp :: jsval

record contactRecord =
  cr_sourceUrl :: string
  cr_domain :: string
  cr_email :: string
  cr_emailType :: emailType
  cr_confidence :: rat
  cr_discoveryPath :: string
  cr_phone :: jsval
  cr_contactPage :: jsval
  cr_social :: socialArg
  cr_rawEvidence :: jsval
  cr_timestamp :: jsval

text \<open>A default parameter value replaces \<open>undefined\<close> only.\<close>

definition orDefault :: "jsval \<Rightarrow> jsval \<Rightarrow> jsval" where
  "orDefault v d = (if v = JUndefined then d else v)"

text \<open>\<open>v || null\<close>: a falsy \<open>v\<close> (absent, \<open>null\<close> or the empty string) gives \<open>null\<close>.\<close>

definition orNull :: "jsval \<Rightarrow> jsval" where
  "orNull v = (case v of JString s \<Rightarrow> (if s = [] then JNull else JString s) | _ \<Rightarrow> JNull)"

datatype typeError = TypeError

text \<open>
  \<open>createContactRecord(data)\<close>.  The argument \<open>social\<close> is \<open>None\<close> when absent (the
  default \<open>{}\<close> applies), \<open>Some None\<close> when it is \<open>null\<close> (reading a property of it
  throws), and \<open>Some (Some s)\<close> for an object, whose missing properties are \<open>JUndefined\<close>.
  \<open>now\<close> is \<open>new Date().toISOString()\<close>.
\<close>

definition emptySocial :: socialArg where
  "emptySocial = \<lparr>sa_linkedin = JUndefined, sa_facebook = JUndefined, sa_x = JUndefined\<rparr>"

definition createContactRecord :: "string \<Rightarrow> contactArgs \<Rightarrow> typeError + contactRecord" where
  "createContactRecord now d =
     (case (case a_social d of None \<Rightarrow> Some emptySocial | Some s \<Rightarrow> s) of
        None \<Rightarrow> Inl TypeError
      | Some s \<Rightarrow>
          Inr \<lparr>cr_sourceUrl = a_sourceUrl d,
               cr_domain = a_domain d,
               cr_email = a_email d,
               cr_emailType = a_emailType d,
               cr_confidence = a_confidence d,
               cr_discoveryPath = a_discoveryPath d,
               cr_phone = orDefault (a_phone d) JNull,
               cr_contactPage = orDefault (a_contactPage d) JNull,
               cr_social = \<lparr>sa_linkedin = orNull (sa_linkedin s),
                            sa_facebook = orNull (sa_facebook s),
                            sa_x = orNull (sa_x s)\<rparr>,
               cr_rawEvidence = orDefault (a_rawEvidence d) JNull,
               cr_timestamp = orDefault (a_timestamp d) (JString now)\<rparr>)"

section \<open>Extraction (extractors/index.mjs)\<close>

record socials =
  linkedin :: "string option"
  facebook :: "string option"
  twitterX :: "string option"

text \<open>
  A social field is adopted when it is truthy: neither \<open>null\<close> nor the empty string.
\<close>

definition truthy :: "string option \<Rightarrow> bool" where
  "truthy v \<longleftrightarrow> (case v of None \<Rightarrow> False | Some s \<Rightarrow> s \<noteq> [])"

record extraction =
  x_emails :: "emailItem list"
  x_phones :: "string list"
  x_socials :: socials

text \<open>
  What the extractor reads off a parsed page: the result of \<open>extractJsonLd($)\<close>, the
  \<open>href\<close> attributes selected by \<open>a[href^="mailto:"]\<close>, by
  \<open>footer a[href^="mailto:"]\<close> and by \<open>a[href^="tel:"]\<close>, and \<open>$('body').text()\<close>.
\<close>

record document =
  jsonLd :: extraction
  mailtoHrefs :: "string list"
  footerMailtoHrefs :: "string list"
  telHrefs :: "string list"
  bodyOf :: string

text \<open>\<open>KEY_PAGES = /(kontakt|kontakta|about|om|team|medarbetare|personal|ledning|contact)/i\<close>.\<close>

definition KEY_PAGES :: "string \<Rightarrow> bool" where
  "KEY_PAGES s \<longleftrightarrow> testAnyCI
     [''kontakt'', ''kontakta'', ''about'', ''om'', ''team'', ''medarbetare'', ''personal'',
      ''ledning'', ''contact''] s"

text \<open>\<open>href.replace(/^mailto:/i, '').split('?')[0].trim()\<close>.\<close>

definition mailtoAddress :: "string \<Rightarrow> string" where
  "mailtoAddress href =
     (let rest = (if prefix ''mailto:'' (foldCase href) then drop 7 href else href)
      in case split_on (CHR ''?'') rest of
           [] \<Rightarrow> []
         | first # _ \<Rightarrow> trim first)"

text \<open>
  One attempt of \<open>/[A-Z0-9._%+-]+@[A-Z0-9.-]+\.[A-Z]{2,24}/gi\<close> at the head of the input,
  giving the length of the match.  The local part is the longest run of its class and
  must be followed by \<open>@\<close>; the domain class is greedy and contains the dot and the
  letters, so the top-level label starts after the last dot of the run that has a non-empty
  prefix before it and two letters behind it, and runs for up to 24 letters.
\<close>

definition isAlnum :: "char \<Rightarrow> bool" where
  "isAlnum c \<longleftrightarrow> isAsciiLetter c \<or> isDigit c"

definition localClass :: "char \<Rightarrow> bool" where
  "localClass c \<longleftrightarrow> isAlnum c \<or> c \<in> set ''._%+-''"

definition domainClass :: "char \<Rightarrow> bool" where
  "domainClass c \<longleftrightarrow> isAlnum c \<or> c \<in> set ''.-''"

definition matchEmailAt :: "string \<Rightarrow> nat option" where
  "matchEmailAt s =
     (let local = takeWhile localClass s in
      if local = [] then None
      else
        (case drop (length local) s of
           [] \<Rightarrow> None
         | a # rest \<Rightarrow>
             if a \<noteq> CHR ''@'' then None
             else
               (let run = takeWhile domainClass rest in
                case rev (filter (\<lambda>p. run ! p = CHR ''.'' \<and> p + 2 < length run
                                      \<and> isAsciiLetter (run ! (p + 1)) \<and> isAsciiLetter (run ! (p + 2)))
                            [1..<length run]) of
                  [] \<Rightarrow> None
                | p # _ \<Rightarrow>
                    Some (length local + 1 + p + 1
                          + min 24 (length (takeWhile isAsciiLetter (drop (p + 1) run)))))))"

fun matchAllEmails :: "string \<Rightarrow> string list" where
  "matchAllEmails [] = []"
| "matchAllEmails (c # cs) =
     (case matchEmailAt (c # cs) of
        None \<Rightarrow> matchAllEmails cs
      | Some n \<Rightarrow> take n (c # cs) # matchAllEmails (drop (n - 1) cs))"

definition mkEvidence :: "string \<Rightarrow> string \<Rightarrow> rat \<Rightarrow> emailItem" where
  "mkEvidence e src conf = Obj \<lparr>ev_email = Some e, ev_source = src, ev_confidence = conf\<rparr>"

text \<open>
  \<open>extractContacts($, url, host)\<close>; \<open>None\<close> when \<open>new URL(url)\<close> throws.  The sources are
  appended in the order JSON-LD, mailto, inline, footer.
\<close>

definition extractContacts :: "(string \<Rightarrow> url option) \<Rightarrow> document \<Rightarrow> string \<Rightarrow> string \<Rightarrow> extraction option" where
  "extractContacts parse doc u siteHost =
     (case parse u of
        None \<Rightarrow> None
      | Some parsed \<Rightarrow>
          (let isContactPage = KEY_PAGES (toLowerCase (pathname parsed));
               mailtos = map (\<lambda>href. mkEvidence (mailtoAddress href) ''mailto'' (85 / 100)) (mailtoHrefs doc);
               inlineEmails = map (\<lambda>m. mkEvidence (trim m) ''inline'' (if isContactPage then 70 / 100 else 50 / 100))
                                  (matchAllEmails (bodyOf doc));
               footerEmails = map (\<lambda>href. mkEvidence (mailtoAddress href) ''footer'' (60 / 100)) (footerMailtoHrefs doc)
           in Some \<lparr>x_emails = x_emails (jsonLd doc) @ mailtos @ inlineEmails @ footerEmails,
                     x_phones = x_phones (jsonLd doc),
                     x_socials = x_socials (jsonLd doc)\<rparr>))"

section \<open>Do-not-contact and terms-of-service lists (doNotContact.mjs)\<close>

definition DNC_LIST :: "string list" where
  "DNC_LIST = [''regeringen.se'', ''riksdagen.se'', ''polisen.se'', ''skatteverket.se'',
     ''kronofogden.se'', ''facebook.com'', ''instagram.com'', ''linkedin.com'', ''twitter.com'',
     ''x.com'']"

text \<open>The list can change at run time (\<open>addToDnc\<close>, \<open>removeFromDnc\<close>), so it is an argument.\<close>

definition isDncDomain :: "string list \<Rightarrow> string \<Rightarrow> bool" where
  "isDncDomain dncList h =
     (let normalized = toLowerCase h in
      normalized \<in> set dncList
      \<or> list_ex (\<lambda>dnc. endsWith normalized (''.'' @ dnc) \<or> normalized = dnc) dncList)"

definition RESTRICTIVE_TOS :: "(string \<times> string) list" where
  "RESTRICTIVE_TOS =
     [(''linkedin.com'', ''TOS f'' @ [CHR 0xF6] @ ''rbjuder scraping ('' @ [CHR 0xA7] @ ''8.2)''),
      (''facebook.com'', ''TOS f'' @ [CHR 0xF6] @ ''rbjuder automatiserad datainsamling''),
      (''instagram.com'', ''Owned by Meta, strikt scraping-f'' @ [CHR 0xF6] @ ''rbud''),
      (''twitter.com'', ''TOS f'' @ [CHR 0xF6] @ ''rbjuder crawling utan tillst'' @ [CHR 0xE5] @ ''nd''),
      (''x.com'', ''TOS f'' @ [CHR 0xF6] @ ''rbjuder crawling utan tillst'' @ [CHR 0xE5] @ ''nd'')]"

text \<open>\<open>checkTos(host)\<close>: the reason of the first entry whose domain occurs in the host.\<close>

definition checkTos :: "string \<Rightarrow> string option" where
  "checkTos h = map_option snd (find (\<lambda>(d, reason). includes_s (toLowerCase h) d) RESTRICTIVE_TOS)"

section \<open>Crawling one URL (crawler.mjs)\<close>

record pageResult =
  emails :: "emailData list"
  phones :: "string list"
  socials :: socials

text \<open>
  Everything \<open>crawlUrl\<close> asks of the outside: the response cache (\<open>getCached\<close>, \<open>None\<close>
  on a miss), the platform functions behind \<open>isSafeUrl\<close>, the answer of
  \<open>isAllowed(url)\<close> (allowed, crawl delay), the outcome of
  \<open>withRateLimit(url, () => fetchHtml(url))\<close>, the page as \<open>cheerio.load(html)\<close> shows it,
  and the two validation libraries.
\<close>

record world =
  getCached :: "string \<Rightarrow> pageResult option"
  platform :: resolver
  isAllowed :: "string \<Rightarrow> bool \<times> rat"
  fetchLimited :: "string \<Rightarrow> fetchError + string"
  cheerio :: "string \<Rightarrow> document"
  emailValidator :: "string \<Rightarrow> bool"
  libphonenumber :: "string \<Rightarrow> phoneNumber option"

text \<open>The counters incremented by the crawler.\<close>

datatype metric = CrawlCounter crawlStatus string | ContactsFound string nat

record urlRun =
  result :: "pageResult option"
  metrics :: "metric list"

text \<open>\<open>xs.join(sep)\<close>.\<close>

fun join :: "string \<Rightarrow> string list \<Rightarrow> string" where
  "join sep [] = []"
| "join sep [s] = s"
| "join sep (s # t # ts) = s @ sep @ join sep (t # ts)"

text \<open>\<open>href.replace(/^tel:/, '')\<close>.\<close>

definition telNumber :: "string \<Rightarrow> string" where
  "telNumber href = (if prefix ''tel:'' href then drop 4 href else href)"

text \<open>
  \<open>crawlUrl(url, host)\<close>.  Each \<open>return null\<close> of the source, and the \<open>catch\<close> block
  that turns any exception into \<open>null\<close>, is a branch with \<open>result = None\<close>.
\<close>

definition crawlUrl :: "world \<Rightarrow> string \<Rightarrow> string \<Rightarrow> urlRun" where
  "crawlUrl w u h =
     (case getCached w u of
        Some cached \<Rightarrow> \<lparr>result = Some cached, metrics = []\<rparr>
      | None \<Rightarrow>
          if \<not> safe (isSafeUrl (platform w) u) then \<lparr>result = None, metrics = []\<rparr>
          else
            (case isAllowed w u of (allowed, crawlDelay) \<Rightarrow>
               if \<not> allowed then \<lparr>result = None, metrics = [CrawlCounter RobotsBlocked h]\<rparr>
               else
                 (case fetchLimited w u of
                    Inl err \<Rightarrow> \<lparr>result = None, metrics = []\<rparr>
                  | Inr html \<Rightarrow>
                      if skip (handleCaptcha u html) then
                        \<lparr>result = None, metrics = [CrawlCounter Captcha h]\<rparr>
                      else
                        (case extractContacts (parseURL (platform w)) (cheerio w html) u h of
                           None \<Rightarrow> \<lparr>result = None, metrics = []\<rparr>
                         | Some extracted \<Rightarrow>
                             (let cleanedEmails = cleanEmails (emailValidator w) (Some (x_emails extracted)) h;
                                  tels = map telNumber (telHrefs (cheerio w html));
                                  found = parsePhonesFromText (libphonenumber w)
                                            (join '' '' [join '' '' tels, bodyOf (cheerio w html)])
                              in \<lparr>result = Some \<lparr>emails = cleanedEmails, phones = found,
                                                  socials = x_socials extracted\<rparr>,
                                   metrics =
                                     (if cleanedEmails \<noteq> [] then [ContactsFound ''email'' (length cleanedEmails)] else [])
                                     @ (if found \<noteq> [] then [ContactsFound ''phone'' (length found)] else [])\<rparr>)))))"

section \<open>Crawling one site (crawler.mjs)\<close>

record siteEmail =
  se_email :: string
  emailType :: emailType
  se_confidence :: rat
  sources :: "string list"
  discoveryPath :: string

record siteError =
  errorUrl :: "string option"
  reason :: string

text \<open>
  The aggregate of one site.  The \<open>Map\<close> of emails is an association list and the two
  \<open>Set\<close>s are lists, all in insertion order, which is the order in which JavaScript
  iterates them.
\<close>

record siteResult =
  companyName :: string
  website :: string
  domain :: string
  siteEmails :: "(string \<times> siteEmail) list"
  sitePhones :: "string list"
  siteSocials :: socials
  sourcePages :: "string list"
  errors :: "siteError list"

text \<open>\<open>config.maxPages || 5\<close>: an absent or zero \<open>maxPages\<close> gives five.\<close>

definition maxPagesOf :: "int option \<Rightarrow> int" where
  "maxPagesOf maxPages = (case maxPages of None \<Rightarrow> 5 | Some n \<Rightarrow> if n = 0 then 5 else n)"

text \<open>\<open>xs.slice(0, n)\<close>: a negative \<open>n\<close> counts from the end.\<close>

definition slice0 :: "'a list \<Rightarrow> int \<Rightarrow> 'a list" where
  "slice0 xs n = (if n < 0 then take (nat (int (length xs) + n)) xs else take (nat n) xs)"

definition candidates :: "string \<Rightarrow> string list" where
  "candidates rootUrl =
     [rootUrl, rootUrl @ ''/kontakt'', rootUrl @ ''/kontakta-oss'', rootUrl @ ''/om'',
      rootUrl @ ''/om-oss'', rootUrl @ ''/about'', rootUrl @ ''/contact'']"

definition pagesToCrawl :: "string \<Rightarrow> int option \<Rightarrow> string list" where
  "pagesToCrawl rootUrl maxPages = slice0 (candidates rootUrl) (maxPagesOf maxPages)"

text \<open>
  The body of the loop over \<open>pageResult.emails\<close>: a new key is classified and scored, an
  existing entry gets the source pushed onto its \<open>sources\<close>.
\<close>

definition mergeEmail :: "(string \<Rightarrow> bool) option \<Rightarrow> string \<Rightarrow> (string \<times> siteEmail) list \<Rightarrow> emailData \<Rightarrow> (string \<times> siteEmail) list" where
  "mergeEmail mx h m emailData =
     (if email emailData \<notin> fst ` set m then
        (let ty = fst (classifyEmail mx (email emailData) h);
             score = scoreEmail (email emailData) ty h
         in m @ [(email emailData,
                  \<lparr>se_email = email emailData, emailType = ty,
                   se_confidence = of_int score / 100,
                   sources = [source emailData],
                   discoveryPath = source emailData\<rparr>)])
      else
        map (\<lambda>(k, existing).
               if k = email emailData
               then (k, existing\<lparr>sources := sources existing @ [source emailData]\<rparr>)
               else (k, existing)) m)"

text \<open>The three assignments that aggregate the socials.\<close>

definition mergeSocials :: "socials \<Rightarrow> socials \<Rightarrow> socials" where
  "mergeSocials cur page =
     \<lparr>linkedin = (if truthy (linkedin page) then linkedin page else linkedin cur),
      facebook = (if truthy (facebook page) then facebook page else facebook cur),
      twitterX = (if truthy (twitterX page) then twitterX page else twitterX cur)\<rparr>"

text \<open>What the loop body does with a non-null page result.\<close>

definition mergePage :: "(string \<Rightarrow> bool) option \<Rightarrow> string \<Rightarrow> siteResult \<Rightarrow> string \<Rightarrow> pageResult \<Rightarrow> siteResult" where
  "mergePage mx h results u pageResult =
     results\<lparr>sourcePages := setAdd (sourcePages results) u,
             siteEmails := foldl (mergeEmail mx h) (siteEmails results) (emails pageResult),
             sitePhones := foldl setAdd (sitePhones results) (phones pageResult),
             siteSocials := mergeSocials (siteSocials results) (socials pageResult)\<rparr>"

text \<open>
  The loop over \<open>pagesToCrawl\<close>.  A null page result is skipped by \<open>continue\<close>.  The
  \<open>catch\<close> block of the loop body, the only place that pushes a \<open>{url, reason}\<close> entry,
  runs when the body throws; \<open>crawlUrl\<close> catches its own exceptions and the aggregation of
  a well-formed page result does not throw, so the model has no such branch.
\<close>

fun crawlPages :: "world \<Rightarrow> (string \<Rightarrow> bool) option \<Rightarrow> string \<Rightarrow> siteResult \<Rightarrow> string list \<Rightarrow> siteResult" where
  "crawlPages w mx h results [] = results"
| "crawlPages w mx h results (u # us) =
     (case result (crawlUrl w u h) of
        None \<Rightarrow> crawlPages w mx h results us
      | Some pageResult \<Rightarrow> crawlPages w mx h (mergePage mx h results u pageResult) us)"

definition initialResults :: "string \<Rightarrow> string \<Rightarrow> string \<Rightarrow> siteResult" where
  "initialResults rootUrl h name =
     \<lparr>companyName = name, website = rootUrl, domain = h,
      siteEmails = [], sitePhones = [],
      siteSocials = \<lparr>linkedin = None, facebook = None, twitterX = None\<rparr>,
      sourcePages = [], errors = []\<rparr>"

text \<open>
  \<open>crawlSite({rootUrl, host, companyName}, config)\<close>, with the current do-not-contact
  list and the MX parameter of \<open>classifyEmail\<close>.
\<close>

definition crawlSite :: "world \<Rightarrow> string list \<Rightarrow> (string \<Rightarrow> bool) option \<Rightarrow> string \<Rightarrow> string \<Rightarrow> string \<Rightarrow> int option \<Rightarrow> siteResult" where
  "crawlSite w dncList mx rootUrl h name maxPages =
     (let results = initialResults rootUrl h name in
      if isDncDomain dncList h then
        results\<lparr>errors := errors results @ [\<lparr>errorUrl = None, reason = ''Domain on Do-Not-Contact list''\<rparr>]\<rparr>
      else
        (let results1 = (case checkTos h of
                           Some r \<Rightarrow> results\<lparr>errors := errors results @ [\<lparr>errorUrl = None, reason = r\<rparr>]\<rparr>
                         | None \<Rightarrow> results)
         in crawlPages w mx h results1 (pagesToCrawl rootUrl maxPages)))"

text \<open>\<open>toContactRecords(crawlResult)\<close>: one record per aggregated email, in map order.\<close>

definition toJs :: "string option \<Rightarrow> jsval" where
  "toJs v = (case v of None \<Rightarrow> JNull | Some s \<Rightarrow> JString s)"

fun collect :: "(typeError + 'a) list \<Rightarrow> typeError + 'a list" where
  "collect [] = Inr []"
| "collect (r # rs) =
     (case r of
        Inl e \<Rightarrow> Inl e
      | Inr v \<Rightarrow> (case collect rs of Inl e \<Rightarrow> Inl e | Inr vs \<Rightarrow> Inr (v # vs)))"

definition toContactRecords :: "string \<Rightarrow> siteResult \<Rightarrow> typeError + contactRecord list" where
  "toContactRecords now crawlResult =
     collect (map (\<lambda>(e, d).
        createContactRecord now
          \<lparr>a_sourceUrl = website crawlResult,
           a_domain = domain crawlResult,
           a_email = e,
           a_emailType = emailType d,
           a_confidence = se_confidence d,
           a_discoveryPath = discoveryPath d,
           a_phone = (case sitePhones crawlResult of [] \<Rightarrow> JNull | p # _ \<Rightarrow> orNull (JString p)),
           a_contactPage = (case find (testAnyCI [''kontakt'', ''contact'']) (sourcePages crawlResult) of
                              None \<Rightarrow> JNull | Some p \<Rightarrow> orNull (JString p)),
           a_social = Some (Some \<lparr>sa_linkedin = toJs (linkedin (siteSocials crawlResult)),
                                  sa_facebook = toJs (facebook (siteSocials crawlResult)),
                                  sa_x = toJs (twitterX (siteSocials crawlResult))\<rparr>),
           a_rawEvidence = JString (''Sources: '' @ join '', '' (sources d)),
           a_timestamp = JString now\<rparr>)
        (siteEmails crawlResult))"

section \<open>Predicates of the specification\<close>

text \<open>
  The steps of the cleaning pipeline that a lower-cased, trimmed address has to pass, in
  the words of the specification: it is not empty, does not match the bad-email pattern,
  has a valid format, splits into a local part and a domain, and its top-level label is on
  the allowlist.
\<close>

definition survives :: "(string \<Rightarrow> bool) \<Rightarrow> string \<Rightarrow> bool" where
  "survives isValidEmail e \<longleftrightarrow>
     e \<noteq> [] \<and> \<not> BAD_EMAILS e \<and> isValidEmail e
     \<and> (\<exists>localpart dom tld. splitAt e = (localpart, Some dom) \<and> localpart \<noteq> [] \<and> dom \<noteq> []
           \<and> tldOf dom = Some tld \<and> tld \<in> set ALLOWED_TLDS)"

text \<open>The entry \<open>cleanEmails\<close> pushes for an item whose address is \<open>e\<close>.\<close>

definition cleaned :: "emailItem \<Rightarrow> string \<Rightarrow> emailData" where
  "cleaned item e =
     \<lparr>email = e,
      source = (case item of Obj ev \<Rightarrow> ev_source ev | Str _ \<Rightarrow> ''unknown''),
      confidence = (case item of Obj ev \<Rightarrow> ev_confidence ev | Str _ \<Rightarrow> 1 / 2)\<rparr>"

text \<open>A field of an emitted record is a string or \<open>null\<close>, never \<open>undefined\<close>.\<close>

definition stringOrNull :: "jsval \<Rightarrow> bool" where
  "stringOrNull v \<longleftrightarrow> (case v of JUndefined \<Rightarrow> False | JNull \<Rightarrow> True | JString s \<Rightarrow> True)"

text \<open>
  An entry of the email map is as it was made on first sighting: keyed by its address,
  classified by \<open>classifyEmail\<close>, with the confidence \<open>score / 100\<close> of \<open>scoreEmail\<close>,
  and with at least one source.
\<close>

definition scored :: "(string \<Rightarrow> bool) option \<Rightarrow> string \<Rightarrow> string \<times> siteEmail \<Rightarrow> bool" where
  "scored mx h kd \<longleftrightarrow>
     (case kd of (k, d) \<Rightarrow>
        se_email d = k
        \<and> emailType d = fst (classifyEmail mx k h)
        \<and> se_confidence d = of_int (scoreEmail k (emailType d) h) / 100
        \<and> sources d \<noteq> [])"

definition mapInv :: "(string \<Rightarrow> bool) option \<Rightarrow> string \<Rightarrow> (string \<times> siteEmail) list \<Rightarrow> bool" where
  "mapInv mx h m \<longleftrightarrow> distinct (map fst m) \<and> list_all (scored mx h) m"

text \<open>
  Every entry of the map \<open>m\<close> is still in \<open>m'\<close> with the same type, confidence and
  discovery path, its sources extended at the end.
\<close>

definition sameClass :: "(string \<times> siteEmail) list \<Rightarrow> (string \<times> siteEmail) list \<Rightarrow> bool" where
  "sameClass m m' \<longleftrightarrow>
     (\<forall>(k, d) \<in> set m. \<exists>d'. (k, d') \<in> set m' \<and> emailType d' = emailType d
        \<and> se_confidence d' = se_confidence d \<and> discoveryPath d' = discoveryPath d
        \<and> prefix (sources d) (sources d'))"

text \<open>The non-null page results of a list of URLs, in crawl order.\<close>

definition pageResults :: "world \<Rightarrow> string \<Rightarrow> string list \<Rightarrow> pageResult list" where
  "pageResults w h us = List.map_filter (\<lambda>u. result (crawlUrl w u h)) us"

text \<open>The last non-empty value of a list of social fields, \<open>cur\<close> when there is none.\<close>

definition lastTruthy :: "string option \<Rightarrow> string option list \<Rightarrow> string option" where
  "lastTruthy cur vs = (case rev (filter truthy vs) of [] \<Rightarrow> cur | v # _ \<Rightarrow> v)"

text \<open>
  The email map that the sightings \<open>eds\<close> of a site (the cleaned emails of its pages,
  in crawl order) have to give, in the words of the specification: one entry per address,
  in the order of first sighting, classified and scored from the address alone, its
  sources the sources of all its sightings in order, its discovery path the source of the
  first one.
\<close>

definition entryOf :: "(string \<Rightarrow> bool) option \<Rightarrow> string \<Rightarrow> emailData list \<Rightarrow> string \<Rightarrow> siteEmail" where
  "entryOf mx h eds k =
     \<lparr>se_email = k,
      emailType = fst (classifyEmail mx k h),
      se_confidence = of_int (scoreEmail k (fst (classifyEmail mx k h)) h) / 100,
      sources = map source (filter (\<lambda>e. email e = k) eds),
      discoveryPath = (case filter (\<lambda>e. email e = k) eds of [] \<Rightarrow> [] | e # _ \<Rightarrow> source e)\<rparr>"

definition aggregate :: "(string \<Rightarrow> bool) option \<Rightarrow> string \<Rightarrow> emailData list \<Rightarrow> (string \<times> siteEmail) list" where
  "aggregate mx h eds = map (\<lambda>k. (k, entryOf mx h eds k)) (newSet (map email eds))"

section \<open>Scenarios\<close>

text \<open>
  Concrete worlds for the scenarios of the specification.  The platform parses URLs of
  the form \<open>https://host/path\<close> and resolves every host to one public address; robots
  allow everything; the email validator asks for exactly one \<open>@\<close> between two non-empty
  parts; the phone library accepts what starts with \<open>+46\<close>.  A scenario serves the listed
  pages (URL, HTML, parsed view) and answers 404 for every other URL.
\<close>

definition emptyDocument :: document where
  "emptyDocument =
     \<lparr>jsonLd = \<lparr>x_emails = [], x_phones = [],
                x_socials = \<lparr>linkedin = None, facebook = None, twitterX = None\<rparr>\<rparr>,
      mailtoHrefs = [], footerMailtoHrefs = [], telHrefs = [], bodyOf = []\<rparr>"

definition examplePlatform :: resolver where
  "examplePlatform =
     \<lparr>parseURL = (\<lambda>u. if prefix ''https://'' u
                        then Some \<lparr>protocol = ''https:'',
                                  hostname = takeWhile (\<lambda>c. c \<noteq> CHR ''/'') (drop 8 u),
                                  pathname = (case dropWhile (\<lambda>c. c \<noteq> CHR ''/'') (drop 8 u) of
                                                [] \<Rightarrow> ''/'' | p \<Rightarrow> p)\<rparr>
                        else None),
      isIP = (\<lambda>h. 0),
      resolve4 = (\<lambda>h. Some [''93.184.216.34''])\<rparr>"

definition oneAt :: "string \<Rightarrow> bool" where
  "oneAt e \<longleftrightarrow> (case split_on (CHR ''@'') e of [l, d] \<Rightarrow> l \<noteq> [] \<and> d \<noteq> [] | _ \<Rightarrow> False)"

definition swedish :: "string \<Rightarrow> phoneNumber option" where
  "swedish s = (if prefix ''+46'' s then Some \<lparr>isValid = True, country = Some ''SE'', number = s\<rparr> else None)"

definition scenario :: "(string \<times> string \<times> document) list \<Rightarrow> world" where
  "scenario served =
     \<lparr>getCached = (\<lambda>u. None),
      platform = examplePlatform,
      isAllowed = (\<lambda>u. (True, 0)),
      fetchLimited = (\<lambda>u. case map_of served u of
                           None \<Rightarrow> Inl (HttpError 404)
                         | Some (html, doc) \<Rightarrow> Inr html),
      cheerio = (\<lambda>html. case map_of (map snd served) html of
                           None \<Rightarrow> emptyDocument
                         | Some doc \<Rightarrow> doc),
      emailValidator = oneAt,
      libphonenumber = swedish\<rparr>"

text \<open>The happy path: one page with a mailto anchor and a tel anchor.\<close>

definition happyPage :: "string \<times> string \<times> document" where
  "happyPage =
     (''https://example.se'',
      ''<a href=mailto:info@example.se></a><a href=tel:+4684002227></a>'',
      emptyDocument\<lparr>mailtoHrefs := [''mailto:info@example.se''],
                     telHrefs := [''tel:+4684002227'']\<rparr>)"

text \<open>A challenge page answered with status 200.\<close>

definition interstitial :: "string \<times> string \<times> document" where
  "interstitial =
     (''https://example.se'', ''<html><title>Just a moment...</title></html>'', emptyDocument)"

text \<open>Two cached pages of one site that name different LinkedIn profiles.\<close>

definition linkedinPage :: "string \<Rightarrow> pageResult" where
  "linkedinPage profile =
     \<lparr>emails = [], phones = [],
      socials = \<lparr>linkedin = Some profile, facebook = None, twitterX = None\<rparr>\<rparr>"

definition twoProfiles :: world where
  "twoProfiles = (scenario [])\<lparr>getCached :=
      map_of [(''https://example.se'', linkedinPage ''https://linkedin.com/company/first''),
              (''https://example.se/kontakt'', linkedinPage ''https://linkedin.com/company/second'')]\<rparr>"

text \<open>
  Two cached pages of one site: the root page exposes two addresses, the contact page
  exposes the first of them again, found by another extractor.
\<close>

definition acmeRoot :: pageResult where
  "acmeRoot =
     \<lparr>emails = [\<lparr>email = ''info@acme.se'', source = ''mailto'', confidence = 85 / 100\<rparr>,
                \<lparr>email = ''anna@gmail.com'', source = ''inline'', confidence = 50 / 100\<rparr>],
      phones = [],
      socials = \<lparr>linkedin = None, facebook = None, twitterX = None\<rparr>\<rparr>"

definition acmeKontakt :: pageResult where
  "acmeKontakt =
     \<lparr>emails = [\<lparr>email = ''info@acme.se'', source = ''inline'', confidence = 70 / 100\<rparr>],
      phones = [],
      socials = \<lparr>linkedin = None, facebook = None, twitterX = None\<rparr>\<rparr>"

definition acme :: world where
  "acme = (scenario [])\<lparr>getCached :=
      map_of [(''https://acme.se'', acmeRoot), (''https://acme.se/kontakt'', acmeKontakt)]\<rparr>"

text \<open>
  A server that answers 503 to the first request and 403 to the second, and a random
  source that always draws one half.
\<close>

definition flaky :: "nat \<Rightarrow> rejection + response" where
  "flaky k = Inr \<lparr>status = (if k = 0 then 503 else 403),
                  contentType = Some ''text/html; charset=utf-8'',
                  bodyText = Inr []\<rparr>"

text \<open>
  The platform on the literal \<open>http://[fd00::1]/\<close>, as Node answers (bracketed host name,
  for which \<open>net.isIP\<close> says 0), and as it would answer if the host name came without
  brackets (\<open>net.isIP\<close> says 6).  \<open>dns.resolve4\<close> fails on both.
\<close>

definition bracketed :: resolver where
  "bracketed =
     \<lparr>parseURL = (\<lambda>u. if u = ''http://[fd00::1]/''
                        then Some \<lparr>protocol = ''http:'', hostname = ''[fd00::1]'', pathname = ''/''\<rparr>
                        else None),
      isIP = (\<lambda>h. 0),
      resolve4 = (\<lambda>h. None)\<rparr>"

definition unbracketed :: resolver where
  "unbracketed =
     \<lparr>parseURL = (\<lambda>u. if u = ''http://[fd00::1]/''
                        then Some \<lparr>protocol = ''http:'', hostname = ''fd00::1'', pathname = ''/''\<rparr>
                        else None),
      isIP = (\<lambda>h. if h = ''fd00::1'' then 6 else 0),
      resolve4 = (\<lambda>h. None)\<rparr>"

section \<open>Evaluation of the string primitives\<close>

lemmas str_eval = toLowerChar_def isUpperChar_def foldChar_def foldCase_def toLowerCase_def
  testAnyCI_def isWhiteSpace_def trim_def startsWith_def endsWith_def splitAt_def
  isAsciiLetter_def isDigit_def

section \<open>The candidate page list\<close>

lemma pagesToCrawl_positive:
  "1 \<le> N \<Longrightarrow> pagesToCrawl rootUrl (Some N) = take (nat N) (candidates rootUrl)"
  by (simp add: pagesToCrawl_def maxPagesOf_def slice0_def)

lemma crawlPages_cong:
  "(\<forall>u \<in> set us. result (crawlUrl w u h) = result (crawlUrl w' u h)) \<Longrightarrow>
   crawlPages w mx h r us = crawlPages w' mx h r us"
  by (induction us arbitrary: r) (auto split: option.splits)

lemma pagesToCrawl_1: "pagesToCrawl rootUrl (Some 1) = [rootUrl]"
  by (simp add: pagesToCrawl_def maxPagesOf_def slice0_def candidates_def)

lemma pagesToCrawl_2: "pagesToCrawl rootUrl (Some 2) = [rootUrl, rootUrl @ ''/kontakt'']"
  by (simp add: pagesToCrawl_def maxPagesOf_def slice0_def candidates_def)

lemma example_not_listed:
  "\<not> isDncDomain DNC_LIST ''example.se''" "checkTos ''example.se'' = None"
  by (simp_all add: isDncDomain_def DNC_LIST_def checkTos_def RESTRICTIVE_TOS_def str_eval)

lemma newSet_snoc: "newSet (xs @ [x]) = setAdd (newSet xs) x"
  by (simp add: newSet_def)

lemma set_newSet: "set (newSet xs) = set xs"
  by (induction xs rule: rev_induct) (auto simp: newSet_snoc setAdd_def, simp add: newSet_def)

lemma distinct_newSet: "distinct (newSet xs)"
  by (induction xs rule: rev_induct) (auto simp: newSet_snoc setAdd_def, simp add: newSet_def)

lemma newSet_distinct: "distinct xs \<Longrightarrow> newSet xs = xs"
  by (induction xs rule: rev_induct) (simp_all add: newSet_snoc setAdd_def, simp add: newSet_def)

lemma crawlPages_sourcePages:
  "sourcePages (crawlPages w mx h r us)
     = foldl setAdd (sourcePages r) (filter (\<lambda>u. result (crawlUrl w u h) \<noteq> None) us)"
  by (induction us arbitrary: r) (auto simp: mergePage_def split: option.splits)

lemma candidates_distinct: "distinct (candidates rootUrl)"
  by (simp add: candidates_def)

lemma crawlSite_sourcePages:
  assumes "\<not> isDncDomain dncList h"
  shows "sourcePages (crawlSite w dncList mx rootUrl h name maxPages)
     = filter (\<lambda>u. result (crawlUrl w u h) \<noteq> None) (pagesToCrawl rootUrl maxPages)"
proof -
  have "distinct (pagesToCrawl rootUrl maxPages)"
    using candidates_distinct [of rootUrl] by (simp add: pagesToCrawl_def slice0_def)
  then have "distinct (filter (\<lambda>u. result (crawlUrl w u h) \<noteq> None) (pagesToCrawl rootUrl maxPages))"
    by simp
  then have "foldl setAdd [] (filter (\<lambda>u. result (crawlUrl w u h) \<noteq> None) (pagesToCrawl rootUrl maxPages))
      = filter (\<lambda>u. result (crawlUrl w u h) \<noteq> None) (pagesToCrawl rootUrl maxPages)"
    using newSet_distinct by (simp add: newSet_def)
  then show ?thesis
    using assms
    by (simp add: crawlSite_def Let_def crawlPages_sourcePages initialResults_def split: option.splits)
qed

text \<open>
  C8: for every \<open>maxPages\<close> value \<open>N\<close> of the crawl configuration (an integer from 1 on),
  the candidate page list is the prefix of length \<open>N\<close> of \<open>rootUrl\<close>, \<open>rootUrl/kontakt\<close>,
  \<open>rootUrl/kontakta-oss\<close>, \<open>rootUrl/om\<close>, \<open>rootUrl/om-oss\<close>, \<open>rootUrl/about\<close>,
  \<open>rootUrl/contact\<close> in that order: it has \<open>min N 7\<close> entries, so at most \<open>N\<close>; with
  \<open>maxPages = 1\<close> it is the root URL alone, from 7 on it is all seven; the pages recorded
  by the crawl of a site that is not on the do-not-contact list are the members of the prefix
  whose crawl gave a result, in that order; and the crawl consults no other URL: two worlds
  that answer alike on the prefix give the same site result.
\<close>

theorem pagesToCrawl_prefix:
  assumes "1 \<le> N"
  shows "pagesToCrawl rootUrl (Some N)
       = take (nat N) [rootUrl, rootUrl @ ''/kontakt'', rootUrl @ ''/kontakta-oss'', rootUrl @ ''/om'',
                        rootUrl @ ''/om-oss'', rootUrl @ ''/about'', rootUrl @ ''/contact'']
     \<and> length (pagesToCrawl rootUrl (Some N)) = min (nat N) 7
     \<and> length (pagesToCrawl rootUrl (Some N)) \<le> nat N
     \<and> (N = 1 \<longrightarrow> pagesToCrawl rootUrl (Some N) = [rootUrl])
     \<and> (7 \<le> N \<longrightarrow> pagesToCrawl rootUrl (Some N)
            = [rootUrl, rootUrl @ ''/kontakt'', rootUrl @ ''/kontakta-oss'', rootUrl @ ''/om'',
               rootUrl @ ''/om-oss'', rootUrl @ ''/about'', rootUrl @ ''/contact''])
     \<and> (\<not> isDncDomain dncList h \<longrightarrow>
          sourcePages (crawlSite w dncList mx rootUrl h name (Some N))
            = filter (\<lambda>u. result (crawlUrl w u h) \<noteq> None)
                (take (nat N) [rootUrl, rootUrl @ ''/kontakt'', rootUrl @ ''/kontakta-oss'', rootUrl @ ''/om'',
                               rootUrl @ ''/om-oss'', rootUrl @ ''/about'', rootUrl @ ''/contact'']))
     \<and> ((\<forall>u \<in> set (take (nat N) [rootUrl, rootUrl @ ''/kontakt'', rootUrl @ ''/kontakta-oss'',
                                    rootUrl @ ''/om'', rootUrl @ ''/om-oss'', rootUrl @ ''/about'',
                                    rootUrl @ ''/contact'']).
            result (crawlUrl w u h) = result (crawlUrl w' u h)) \<longrightarrow>
          crawlSite w dncList mx rootUrl h name (Some N) = crawlSite w' dncList mx rootUrl h name (Some N))"
proof -
  let ?all = "[rootUrl, rootUrl @ ''/kontakt'', rootUrl @ ''/kontakta-oss'', rootUrl @ ''/om'',
               rootUrl @ ''/om-oss'', rootUrl @ ''/about'', rootUrl @ ''/contact'']"
  have p: "pagesToCrawl rootUrl (Some N) = take (nat N) ?all"
    using pagesToCrawl_positive [OF assms, of rootUrl] by (simp add: candidates_def)
  have len: "length (pagesToCrawl rootUrl (Some N)) = min (nat N) 7"
    unfolding p by simp
  have one: "N = 1 \<longrightarrow> pagesToCrawl rootUrl (Some N) = [rootUrl]"
    unfolding p by simp
  have full: "7 \<le> N \<longrightarrow> pagesToCrawl rootUrl (Some N) = ?all"
    unfolding p by simp
  have visited: "\<not> isDncDomain dncList h \<longrightarrow>
          sourcePages (crawlSite w dncList mx rootUrl h name (Some N))
            = filter (\<lambda>u. result (crawlUrl w u h) \<noteq> None) (take (nat N) ?all)"
    using crawlSite_sourcePages [of dncList h w mx rootUrl name "Some N"] unfolding p by blast
  have same: "(\<forall>u \<in> set (take (nat N) ?all).
            result (crawlUrl w u h) = result (crawlUrl w' u h)) \<longrightarrow>
          crawlSite w dncList mx rootUrl h name (Some N) = crawlSite w' dncList mx rootUrl h name (Some N)"
  proof
    assume "\<forall>u \<in> set (take (nat N) ?all). result (crawlUrl w u h) = result (crawlUrl w' u h)"
    then have "\<forall>u \<in> set (pagesToCrawl rootUrl (Some N)). result (crawlUrl w u h) = result (crawlUrl w' u h)"
      unfolding p .
    then have "crawlPages w mx h r (pagesToCrawl rootUrl (Some N))
             = crawlPages w' mx h r (pagesToCrawl rootUrl (Some N))" for r
      by (rule crawlPages_cong)
    then show "crawlSite w dncList mx rootUrl h name (Some N) = crawlSite w' dncList mx rootUrl h name (Some N)"
      by (simp add: crawlSite_def Let_def)
  qed
  from p len one full visited same show ?thesis by simp
qed

theorem pagesToCrawl_prefix_witness:
  "(1::int) \<le> 3 \<and> (1::int) \<le> 10
   \<and> pagesToCrawl ''https://example.se'' (Some 3)
       = [''https://example.se'', ''https://example.se/kontakt'', ''https://example.se/kontakta-oss'']
   \<and> pagesToCrawl ''https://example.se'' (Some 10)
       = [''https://example.se'', ''https://example.se/kontakt'', ''https://example.se/kontakta-oss'',
          ''https://example.se/om'', ''https://example.se/om-oss'', ''https://example.se/about'',
          ''https://example.se/contact'']
   \<and> sourcePages (crawlSite (scenario [happyPage]) DNC_LIST None ''https://example.se'' ''example.se''
         ''Example AB'' (Some 3))
       = filter (\<lambda>u. result (crawlUrl (scenario [happyPage]) u ''example.se'') \<noteq> None)
           [''https://example.se'', ''https://example.se/kontakt'', ''https://example.se/kontakta-oss'']"
  using pagesToCrawl_prefix [of 3 "''https://example.se''" DNC_LIST "''example.se''" "scenario [happyPage]"
      None "''Example AB''" "scenario [happyPage]"]
    pagesToCrawl_prefix [of 10 "''https://example.se''" DNC_LIST "''example.se''" "scenario [happyPage]"
      None "''Example AB''" "scenario [happyPage]"]
    example_not_listed(1)
  by (simp add: numeral_3_eq_3)

section \<open>Contact records\<close>

lemma orNull_stringOrNull: "stringOrNull (orNull v)"
  by (cases v) (simp_all add: orNull_def stringOrNull_def)

lemma orDefault_absent: "orDefault JUndefined d = d"
  by (simp add: orDefault_def)

text \<open>
  C10: for every input to \<open>createContactRecord\<close>, a record is emitted unless \<open>social\<close> is
  \<open>null\<close>; in the emitted record \<open>social.linkedin\<close>, \<open>social.facebook\<close> and \<open>social.x\<close>
  are each a string or \<open>null\<close>, never \<open>undefined\<close> (all three \<open>null\<close> when \<open>social\<close> is
  absent), and an omitted \<open>phone\<close>, \<open>contactPage\<close> or \<open>rawEvidence\<close> is \<open>null\<close>.
\<close>

theorem createContactRecord_shape:
  "(case createContactRecord now d of
      Inl e \<Rightarrow> a_social d = Some None
    | Inr r \<Rightarrow>
        stringOrNull (sa_linkedin (cr_social r))
        \<and> stringOrNull (sa_facebook (cr_social r))
        \<and> stringOrNull (sa_x (cr_social r))
        \<and> (a_social d = None \<longrightarrow>
              cr_social r = \<lparr>sa_linkedin = JNull, sa_facebook = JNull, sa_x = JNull\<rparr>)
        \<and> (a_phone d = JUndefined \<longrightarrow> cr_phone r = JNull)
        \<and> (a_contactPage d = JUndefined \<longrightarrow> cr_contactPage r = JNull)
        \<and> (a_rawEvidence d = JUndefined \<longrightarrow> cr_rawEvidence r = JNull))"
proof (cases "a_social d")
  case None
  then show ?thesis
    by (simp add: createContactRecord_def orNull_stringOrNull orDefault_absent emptySocial_def)
       (simp add: orNull_def)
next
  case (Some s)
  then show ?thesis
    by (cases s) (simp_all add: createContactRecord_def orNull_stringOrNull orDefault_absent)
qed

theorem createContactRecord_shape_witness:
  "createContactRecord ''2026-01-01T00:00:00.000Z''
     \<lparr>a_sourceUrl = ''https://example.se'', a_domain = ''example.se'',
      a_email = ''info@example.se'', a_emailType = Role, a_confidence = 3 / 5,
      a_discoveryPath = ''mailto'', a_phone = JUndefined, a_contactPage = JUndefined,
      a_social = None, a_rawEvidence = JUndefined, a_timestamp = JUndefined\<rparr>
   = Inr \<lparr>cr_sourceUrl = ''https://example.se'', cr_domain = ''example.se'',
          cr_email = ''info@example.se'', cr_emailType = Role, cr_confidence = 3 / 5,
          cr_discoveryPath = ''mailto'', cr_phone = JNull, cr_contactPage = JNull,
          cr_social = \<lparr>sa_linkedin = JNull, sa_facebook = JNull, sa_x = JNull\<rparr>,
          cr_rawEvidence = JNull, cr_timestamp = JString ''2026-01-01T00:00:00.000Z''\<rparr>"
  using createContactRecord_shape [where now = "''2026-01-01T00:00:00.000Z''" and d =
     "\<lparr>a_sourceUrl = ''https://example.se'', a_domain = ''example.se'',
      a_email = ''info@example.se'', a_emailType = Role, a_confidence = 3 / 5,
      a_discoveryPath = ''mailto'', a_phone = JUndefined, a_contactPage = JUndefined,
      a_social = None, a_rawEvidence = JUndefined, a_timestamp = JUndefined\<rparr>"]
  by (simp add: createContactRecord_def emptySocial_def orNull_def orDefault_def)

section \<open>The cleaning pipeline\<close>

lemma ALLOWED_TLDS_nonempty: "tld \<in> set ALLOWED_TLDS \<Longrightarrow> tld \<noteq> []"
  by (auto simp: ALLOWED_TLDS_def)

lemma cleanLoop_None:
  "itemEmail item = None \<Longrightarrow> cleanLoop v (item # rest) out seen = cleanLoop v rest out seen"
  by simp

lemma cleanLoop_seen:
  "itemEmail item = Some e \<Longrightarrow> e \<in> set seen \<Longrightarrow>
   cleanLoop v (item # rest) out seen = cleanLoop v rest out seen"
  by simp

lemma cleanLoop_reject:
  "itemEmail item = Some e \<Longrightarrow> \<not> survives v e \<Longrightarrow>
   cleanLoop v (item # rest) out seen = cleanLoop v rest out seen"
  by (cases "splitAt e"; cases "snd (splitAt e)"; cases "tldOf (the (snd (splitAt e)))")
     (auto simp: survives_def)

lemma cleanLoop_keep:
  "itemEmail item = Some e \<Longrightarrow> e \<notin> set seen \<Longrightarrow> survives v e \<Longrightarrow>
   cleanLoop v (item # rest) out seen = cleanLoop v rest (out @ [cleaned item e]) (seen @ [e])"
  unfolding survives_def
  by (elim conjE exE) (simp add: cleaned_def ALLOWED_TLDS_nonempty)

lemma cleanLoop_emails:
  "map email out = seen \<Longrightarrow> distinct seen \<Longrightarrow>
   distinct (map email (cleanLoop v items out seen))
   \<and> set (map email (cleanLoop v items out seen))
       = set seen \<union> {e. survives v e \<and> (\<exists>item \<in> set items. itemEmail item = Some e)}"
proof (induction items arbitrary: out seen)
  case Nil
  then show ?case by simp
next
  case (Cons item rest)
  let ?K = "\<lambda>xs. {e. survives v e \<and> (\<exists>i \<in> set xs. itemEmail i = Some e)}"
  show ?case
  proof (cases "itemEmail item")
    case None
    have step: "cleanLoop v (item # rest) out seen = cleanLoop v rest out seen"
      using None by (rule cleanLoop_None)
    have K: "?K (item # rest) = ?K rest"
      using None by auto
    show ?thesis
      unfolding step K using Cons.IH [OF Cons.prems] .
  next
    case (Some e)
    show ?thesis
    proof (cases "e \<in> set seen")
      case True
      have step: "cleanLoop v (item # rest) out seen = cleanLoop v rest out seen"
        using Some True by (rule cleanLoop_seen)
      have K: "set seen \<union> ?K (item # rest) = set seen \<union> ?K rest"
        using Some True by auto
      show ?thesis
        unfolding step K using Cons.IH [OF Cons.prems] .
    next
      case False
      show ?thesis
      proof (cases "survives v e")
        case True
        have step: "cleanLoop v (item # rest) out seen
                    = cleanLoop v rest (out @ [cleaned item e]) (seen @ [e])"
          using Some False True by (rule cleanLoop_keep)
        have pre: "map email (out @ [cleaned item e]) = seen @ [e]" "distinct (seen @ [e])"
          using Cons.prems False by (simp_all add: cleaned_def)
        have K: "set seen \<union> ?K (item # rest) = set (seen @ [e]) \<union> ?K rest"
          using Some True by auto
        show ?thesis
          unfolding step K using Cons.IH [OF pre] .
      next
        case rejected: False
        have step: "cleanLoop v (item # rest) out seen = cleanLoop v rest out seen"
          using Some rejected by (rule cleanLoop_reject)
        have K: "?K (item # rest) = ?K rest"
          using Some rejected by auto
        show ?thesis
          unfolding step K using Cons.IH [OF Cons.prems] .
      qed
    qed
  qed
qed

lemma itemEmail_Some:
  "itemEmail item = Some e \<Longrightarrow>
   \<exists>raw. (item = Str raw \<or> (\<exists>ev. item = Obj ev \<and> ev_email ev = Some raw))
      \<and> e = toLowerCase (trim raw)"
  by (cases item) (auto simp: itemEmail_def)

lemma cleanEmails_emails:
  "distinct (map email (cleanEmails v (Some items) h))
   \<and> set (map email (cleanEmails v (Some items) h))
       = {e. survives v e \<and> (\<exists>item \<in> set items. itemEmail item = Some e)}"
  using cleanLoop_emails [of "[]" "[]" v items] by (simp add: cleanEmails_def)

text \<open>
  C6: for every list of extracted items, the addresses that \<open>cleanEmails\<close> returns are
  pairwise different, and each of them is the lower-cased, trimmed address of an input
  item, is not empty, does not match the bad-email pattern, passes the format validation,
  splits into a non-empty local part and domain, and has its top-level label on the
  allowlist; an input address is in the output exactly when it passes all these steps, so
  every address failing one of them is discarded.
\<close>

theorem cleanEmails_pipeline:
  "distinct (map email (cleanEmails v (Some items) h))
   \<and> (\<forall>d \<in> set (cleanEmails v (Some items) h).
        (\<exists>item \<in> set items. \<exists>raw.
            (item = Str raw \<or> (\<exists>ev. item = Obj ev \<and> ev_email ev = Some raw))
            \<and> email d = toLowerCase (trim raw))
        \<and> email d \<noteq> []
        \<and> \<not> BAD_EMAILS (email d)
        \<and> v (email d)
        \<and> (\<exists>localpart dom tld. splitAt (email d) = (localpart, Some dom)
              \<and> localpart \<noteq> [] \<and> dom \<noteq> []
              \<and> tldOf dom = Some tld \<and> tld \<in> set ALLOWED_TLDS))
   \<and> (\<forall>item \<in> set items. \<forall>e. itemEmail item = Some e \<longrightarrow>
         (e \<in> set (map email (cleanEmails v (Some items) h)) \<longleftrightarrow> survives v e))"
proof (intro conjI ballI allI impI)
  show "distinct (map email (cleanEmails v (Some items) h))"
    using cleanEmails_emails by blast
next
  fix d assume "d \<in> set (cleanEmails v (Some items) h)"
  then have "email d \<in> set (map email (cleanEmails v (Some items) h))" by simp
  then have s: "survives v (email d)" and i: "\<exists>item \<in> set items. itemEmail item = Some (email d)"
    using cleanEmails_emails [of v items h] by blast+
  show "\<exists>item \<in> set items. \<exists>raw.
            (item = Str raw \<or> (\<exists>ev. item = Obj ev \<and> ev_email ev = Some raw))
            \<and> email d = toLowerCase (trim raw)"
    using i itemEmail_Some by blast
  show "email d \<noteq> []" "\<not> BAD_EMAILS (email d)" "v (email d)"
    using s by (simp_all add: survives_def)
  show "\<exists>localpart dom tld. splitAt (email d) = (localpart, Some dom)
              \<and> localpart \<noteq> [] \<and> dom \<noteq> []
              \<and> tldOf dom = Some tld \<and> tld \<in> set ALLOWED_TLDS"
    using s unfolding survives_def by (elim conjE)
next
  fix item e assume "item \<in> set items" "itemEmail item = Some e"
  then show "e \<in> set (map email (cleanEmails v (Some items) h)) \<longleftrightarrow> survives v e"
    using cleanEmails_emails [of v items h] by blast
qed

theorem cleanEmails_pipeline_witness:
  "map email (cleanEmails oneAt
       (Some [Str '' Info@Example.SE '',
              Obj \<lparr>ev_email = Some ''info@example.se'', ev_source = ''mailto'', ev_confidence = 85 / 100\<rparr>,
              Str ''noreply@example.se'',
              Str ''kim@example.xyz'']) ''example.se'')
     = [''info@example.se'']
   \<and> survives oneAt ''info@example.se''
   \<and> \<not> survives oneAt ''noreply@example.se''
   \<and> \<not> survives oneAt ''kim@example.xyz''"
proof -
  let ?items = "[Str '' Info@Example.SE '',
              Obj \<lparr>ev_email = Some ''info@example.se'', ev_source = ''mailto'', ev_confidence = 85 / 100\<rparr>,
              Str ''noreply@example.se'',
              Str ''kim@example.xyz'']"
  have out: "map email (cleanEmails oneAt (Some ?items) ''example.se'') = [''info@example.se'']"
    by (simp add: cleanEmails_def itemEmail_def BAD_EMAILS_def oneAt_def tldOf_def ALLOWED_TLDS_def str_eval)
  have i: "itemEmail (Str '' Info@Example.SE '') = Some ''info@example.se''"
    "itemEmail (Str ''noreply@example.se'') = Some ''noreply@example.se''"
    "itemEmail (Str ''kim@example.xyz'') = Some ''kim@example.xyz''"
    by (simp_all add: itemEmail_def str_eval)
  from cleanEmails_pipeline [of oneAt ?items "''example.se''"]
  have "\<forall>item \<in> set ?items. \<forall>e. itemEmail item = Some e \<longrightarrow>
         (e \<in> set (map email (cleanEmails oneAt (Some ?items) ''example.se'')) \<longleftrightarrow> survives oneAt e)"
    by blast
  then have "\<forall>item \<in> set ?items. \<forall>e. itemEmail item = Some e \<longrightarrow>
         (e = ''info@example.se'' \<longleftrightarrow> survives oneAt e)"
    unfolding out by simp
  then have "survives oneAt ''info@example.se''" "\<not> survives oneAt ''noreply@example.se''"
    "\<not> survives oneAt ''kim@example.xyz''"
    using i by auto
  with out show ?thesis by simp
qed

section \<open>The scenarios evaluated\<close>

lemma crawlUrl_cached: "getCached w u = Some p \<Longrightarrow> crawlUrl w u h = \<lparr>result = Some p, metrics = []\<rparr>"
  by (simp add: crawlUrl_def)

lemma crawlSite_open:
  "\<not> isDncDomain dncList h \<Longrightarrow> checkTos h = None \<Longrightarrow>
   crawlSite w dncList mx rootUrl h name maxPages
     = crawlPages w mx h (initialResults rootUrl h name) (pagesToCrawl rootUrl maxPages)"
  by (simp add: crawlSite_def)

lemma scenario_fields:
  "getCached (scenario served) = (\<lambda>u. None)"
  "platform (scenario served) = examplePlatform"
  "isAllowed (scenario served) = (\<lambda>u. (True, 0))"
  "emailValidator (scenario served) = oneAt"
  "libphonenumber (scenario served) = swedish"
  by (simp_all add: scenario_def)

lemma scenario_not_served:
  "map_of served u = None \<Longrightarrow> fetchLimited (scenario served) u = Inl (HttpError 404)"
  by (simp add: scenario_def)

lemma scenario_served:
  "map_of served u = Some (html, doc) \<Longrightarrow> fetchLimited (scenario served) u = Inr html"
  "map_of (map snd served) html = Some doc \<Longrightarrow> cheerio (scenario served) html = doc"
  by (simp_all add: scenario_def)

lemma examplePlatform_safe:
  "prefix ''https://'' u \<Longrightarrow> isSafeUrl examplePlatform u = \<lparr>safe = True, safeReason = None\<rparr>"
  by (simp add: isSafeUrl_def examplePlatform_def blockedIp_def BLOCKED_IP_PATTERNS_def pat172_def
        startsWith_def)

lemma crawlUrl_page:
  assumes "getCached w u = None" "safe (isSafeUrl (platform w) u)" "fst (isAllowed w u)"
    "fetchLimited w u = Inr html" "\<not> skip (handleCaptcha u html)"
    "extractContacts (parseURL (platform w)) (cheerio w html) u h = Some extracted"
  shows "result (crawlUrl w u h) =
     Some \<lparr>emails = cleanEmails (emailValidator w) (Some (x_emails extracted)) h,
           phones = parsePhonesFromText (libphonenumber w)
                      (join '' '' [join '' '' (map telNumber (telHrefs (cheerio w html))), bodyOf (cheerio w html)]),
           socials = x_socials extracted\<rparr>"
    and "CrawlCounter Captcha h \<notin> set (metrics (crawlUrl w u h))"
  using assms by (auto simp: crawlUrl_def Let_def split: prod.splits)

lemma crawlUrl_captcha:
  assumes "getCached w u = None" "safe (isSafeUrl (platform w) u)" "fst (isAllowed w u)"
    "fetchLimited w u = Inr html" "skip (handleCaptcha u html)"
  shows "crawlUrl w u h = \<lparr>result = None, metrics = [CrawlCounter Captcha h]\<rparr>"
  using assms by (auto simp: crawlUrl_def split: prod.splits)

lemma handleCaptcha_typed:
  "getCaptchaType html = Some t \<Longrightarrow>
   handleCaptcha u html = \<lparr>skip = True, skipReason = Some (''Captcha detected ('' @ t @ '')'')\<rparr>"
  by (auto simp: handleCaptcha_def getCaptchaType_def split: if_splits)

lemma crawlPages_errors: "errors (crawlPages w mx h r us) = errors r"
  by (induction us arbitrary: r) (auto simp: mergePage_def split: option.splits)

lemma crawlPages_append:
  "crawlPages w mx h r (us @ vs) = crawlPages w mx h (crawlPages w mx h r us) vs"
  by (induction us arbitrary: r) (auto split: option.splits)

lemma known_challenges_skipped:
  assumes "testAnyCI [''g-recaptcha'', ''grecaptcha'', ''recaptcha'', ''hcaptcha'', ''cloudflare'',
                      ''cf-browser-verification'', ''challenge-platform''] html"
  shows "\<exists>t \<in> set [''recaptcha'', ''hcaptcha'', ''cloudflare''].
           handleCaptcha u html = \<lparr>skip = True, skipReason = Some (''Captcha detected ('' @ t @ '')'')\<rparr>"
proof -
  have "\<exists>t \<in> set [''recaptcha'', ''hcaptcha'', ''cloudflare'']. getCaptchaType html = Some t"
  proof (cases "testAnyCI [''g-recaptcha'', ''grecaptcha'', ''recaptcha''] html")
    case True
    then show ?thesis by (simp add: getCaptchaType_def)
  next
    case no_re: False
    show ?thesis
    proof (cases "testAnyCI [''hcaptcha''] html")
      case True
      with no_re show ?thesis by (simp add: getCaptchaType_def)
    next
      case False
      with no_re assms
      have "testAnyCI [''cloudflare'', ''cf-browser-verification'', ''challenge-platform''] html"
        by (simp add: testAnyCI_def)
      with no_re False show ?thesis by (simp add: getCaptchaType_def)
    qed
  qed
  then obtain t where "t \<in> set [''recaptcha'', ''hcaptcha'', ''cloudflare'']" "getCaptchaType html = Some t"
    by blast
  then show ?thesis
    using handleCaptcha_typed [of html t u] by blast
qed

lemma crawlSite_errors:
  "errors (crawlSite w dncList mx rootUrl h name maxPages) =
     (if isDncDomain dncList h then [\<lparr>errorUrl = None, reason = ''Domain on Do-Not-Contact list''\<rparr>]
      else case checkTos h of
             Some r \<Rightarrow> [\<lparr>errorUrl = None, reason = r\<rparr>]
           | None \<Rightarrow> [])"
  by (simp add: crawlSite_def Let_def crawlPages_errors initialResults_def split: option.splits)

lemma crawlSite_start:
  "\<exists>r us. siteEmails r = [] \<and> crawlSite w dncList mx rootUrl h name maxPages = crawlPages w mx h r us"
proof (cases "isDncDomain dncList h")
  case True
  then have "crawlSite w dncList mx rootUrl h name maxPages =
      crawlPages w mx h
        ((initialResults rootUrl h name)\<lparr>errors := errors (initialResults rootUrl h name)
            @ [\<lparr>errorUrl = None, reason = ''Domain on Do-Not-Contact list''\<rparr>]\<rparr>) []"
    by (simp add: crawlSite_def Let_def)
  moreover have "siteEmails ((initialResults rootUrl h name)\<lparr>errors := errors (initialResults rootUrl h name)
            @ [\<lparr>errorUrl = None, reason = ''Domain on Do-Not-Contact list''\<rparr>]\<rparr>) = []"
    by (simp add: initialResults_def)
  ultimately show ?thesis by blast
next
  case False
  show ?thesis
  proof (cases "checkTos h")
    case None
    with False have "crawlSite w dncList mx rootUrl h name maxPages =
        crawlPages w mx h (initialResults rootUrl h name) (pagesToCrawl rootUrl maxPages)"
      by (simp add: crawlSite_def Let_def)
    moreover have "siteEmails (initialResults rootUrl h name) = []"
      by (simp add: initialResults_def)
    ultimately show ?thesis by blast
  next
    case (Some t)
    with False have "crawlSite w dncList mx rootUrl h name maxPages =
        crawlPages w mx h
          ((initialResults rootUrl h name)\<lparr>errors := errors (initialResults rootUrl h name)
              @ [\<lparr>errorUrl = None, reason = t\<rparr>]\<rparr>) (pagesToCrawl rootUrl maxPages)"
      by (simp add: crawlSite_def Let_def)
    moreover have "siteEmails ((initialResults rootUrl h name)\<lparr>errors := errors (initialResults rootUrl h name)
              @ [\<lparr>errorUrl = None, reason = t\<rparr>]\<rparr>) = []"
      by (simp add: initialResults_def)
    ultimately show ?thesis by blast
  qed
qed

section \<open>Aggregation of the socials\<close>

lemma lastTruthy_Cons: "lastTruthy cur (v # vs) = lastTruthy (if truthy v then v else cur) vs"
  by (simp add: lastTruthy_def split: list.splits)

lemma pageResults_Cons:
  "pageResults w h (u # us) =
     (case result (crawlUrl w u h) of None \<Rightarrow> pageResults w h us | Some p \<Rightarrow> p # pageResults w h us)"
  by (simp add: pageResults_def List.map_filter_def split: option.splits)

lemma mergePage_socials:
  "siteSocials (mergePage mx h r u p) = mergeSocials (siteSocials r) (socials p)"
  by (simp add: mergePage_def)

lemma twoProfiles_cached:
  "crawlUrl twoProfiles ''https://example.se'' ''example.se''
     = \<lparr>result = Some (linkedinPage ''https://linkedin.com/company/first''), metrics = []\<rparr>"
  "crawlUrl twoProfiles ''https://example.se/kontakt'' ''example.se''
     = \<lparr>result = Some (linkedinPage ''https://linkedin.com/company/second''), metrics = []\<rparr>"
  by (rule crawlUrl_cached, simp add: twoProfiles_def)+

text \<open>
  C1, as stated (the first non-empty value of a social field wins), fails: with one page
  crawled the LinkedIn field is the profile of the root page, with two pages crawled it is
  the profile of the second page.
\<close>

theorem socials_first_wins_counterexample:
  "linkedin (siteSocials (crawlSite twoProfiles DNC_LIST None ''https://example.se'' ''example.se'' ''Example AB'' (Some 1)))
     = Some ''https://linkedin.com/company/first''
   \<and> linkedin (siteSocials (crawlSite twoProfiles DNC_LIST None ''https://example.se'' ''example.se'' ''Example AB'' (Some 2)))
     = Some ''https://linkedin.com/company/second''"
  by (simp add: crawlSite_open example_not_listed pagesToCrawl_1 pagesToCrawl_2 twoProfiles_cached
        mergePage_socials mergeSocials_def initialResults_def linkedinPage_def truthy_def)

text \<open>
  C1, amended: for every site crawl, each social field of the aggregate is overwritten by
  a page exactly when the value of the page is non-empty, whatever the field holds; so
  after any list of pages each field is the last non-empty value among the page results,
  in crawl order, and the value it had before when no page has one.
\<close>

theorem socials_last_nonempty_wins:
  "linkedin (siteSocials (crawlPages w mx h r us))
     = lastTruthy (linkedin (siteSocials r)) (map (linkedin \<circ> socials) (pageResults w h us))
   \<and> facebook (siteSocials (crawlPages w mx h r us))
     = lastTruthy (facebook (siteSocials r)) (map (facebook \<circ> socials) (pageResults w h us))
   \<and> twitterX (siteSocials (crawlPages w mx h r us))
     = lastTruthy (twitterX (siteSocials r)) (map (twitterX \<circ> socials) (pageResults w h us))"
proof (induction us arbitrary: r)
  case Nil
  show ?case by (simp add: pageResults_def List.map_filter_def lastTruthy_def)
next
  case (Cons u us)
  show ?case
  proof (cases "result (crawlUrl w u h)")
    case None
    then show ?thesis using Cons [of r] by (simp add: pageResults_Cons)
  next
    case (Some p)
    then show ?thesis
      using Cons [of "mergePage mx h r u p"]
      by (simp add: pageResults_Cons lastTruthy_Cons mergePage_socials mergeSocials_def)
  qed
qed

theorem socials_last_nonempty_wins_witness:
  "linkedin (siteSocials (crawlPages twoProfiles None ''example.se''
       (initialResults ''https://example.se'' ''example.se'' ''Example AB'')
       [''https://example.se'', ''https://example.se/kontakt'']))
     = Some ''https://linkedin.com/company/second''
   \<and> facebook (siteSocials (crawlPages twoProfiles None ''example.se''
       (initialResults ''https://example.se'' ''example.se'' ''Example AB'')
       [''https://example.se'', ''https://example.se/kontakt'']))
     = None"
  using socials_last_nonempty_wins [of twoProfiles None "''example.se''"
      "initialResults ''https://example.se'' ''example.se'' ''Example AB''"
      "[''https://example.se'', ''https://example.se/kontakt'']"]
  by (simp add: pageResults_def List.map_filter_def twoProfiles_cached lastTruthy_def truthy_def
        linkedinPage_def initialResults_def)

section \<open>Failing URLs\<close>

lemma crawlUrl_failure:
  assumes "getCached w u = None"
    and "\<not> safe (isSafeUrl (platform w) u)
         \<or> \<not> fst (isAllowed w u)
         \<or> (\<exists>err. fetchLimited w u = Inl err)
         \<or> (\<exists>html. fetchLimited w u = Inr html
               \<and> (skip (handleCaptcha u html)
                    \<or> extractContacts (parseURL (platform w)) (cheerio w html) u h = None))"
  shows "result (crawlUrl w u h) = None"
  using assms by (auto simp: crawlUrl_def split: prod.splits sum.splits option.splits)

text \<open>
  C4, amended: for every URL that is not cached and whose crawl fails (unsafe URL, robots
  disallow, fetch error, captcha skip, or a page that cannot be parsed), \<open>crawlUrl\<close>
  returns \<open>null\<close>; the site crawl goes on with the remaining candidate pages and
  ends with the result it would have without that URL; and the errors list of the site
  is what it was before the pages were crawled: the failure is logged, not recorded there.
\<close>

theorem failed_url_swallowed:
  assumes "getCached w u = None"
    and "\<not> safe (isSafeUrl (platform w) u)
         \<or> \<not> fst (isAllowed w u)
         \<or> (\<exists>err. fetchLimited w u = Inl err)
         \<or> (\<exists>html. fetchLimited w u = Inr html
               \<and> (skip (handleCaptcha u html)
                    \<or> extractContacts (parseURL (platform w)) (cheerio w html) u h = None))"
  shows "result (crawlUrl w u h) = None
     \<and> crawlPages w mx h r (us @ u # vs) = crawlPages w mx h r (us @ vs)
     \<and> errors (crawlPages w mx h r (us @ u # vs)) = errors r"
proof -
  have none: "result (crawlUrl w u h) = None"
    using assms by (rule crawlUrl_failure)
  then have "crawlPages w mx h r (us @ u # vs) = crawlPages w mx h r (us @ vs)"
    by (simp add: crawlPages_append)
  with none show ?thesis by (simp add: crawlPages_errors)
qed

theorem failed_url_swallowed_witness:
  "result (crawlUrl (scenario []) ''https://example.se'' ''example.se'') = None
   \<and> crawlPages (scenario []) None ''example.se''
        (initialResults ''https://example.se'' ''example.se'' ''Example AB'') [''https://example.se'']
      = initialResults ''https://example.se'' ''example.se'' ''Example AB''"
  using failed_url_swallowed [of "scenario []" "''https://example.se''" "''example.se''" None
      "initialResults ''https://example.se'' ''example.se'' ''Example AB''" "[]" "[]"]
  by (simp add: scenario_fields scenario_not_served)

text \<open>
  C4, as stated (the failure is recorded on the errors list of the site), fails: the only
  candidate page of the site answers 404, \<open>crawlUrl\<close> returns \<open>null\<close>, and the errors
  list of the site result is empty.
\<close>

theorem failure_recorded_counterexample:
  "result (crawlUrl (scenario []) ''https://example.se'' ''example.se'') = None
   \<and> errors (crawlSite (scenario []) DNC_LIST None ''https://example.se'' ''example.se'' ''Example AB'' (Some 1)) = []"
proof -
  have "result (crawlUrl (scenario []) ''https://example.se'' ''example.se'') = None"
    by (rule crawlUrl_failure) (simp_all add: scenario_fields scenario_not_served)
  then show ?thesis
    by (simp add: crawlSite_open example_not_listed pagesToCrawl_1 initialResults_def)
qed

section \<open>Aggregation of the emails\<close>

lemma sameClass_refl: "sameClass m m"
  by (auto simp: sameClass_def)

lemma sameClass_trans: "sameClass a b \<Longrightarrow> sameClass b c \<Longrightarrow> sameClass a c"
  unfolding sameClass_def
  apply clarify
  subgoal for k d
    apply (drule bspec [where x = "(k, d)"], assumption)
    apply clarify
    subgoal for d'
      apply (drule bspec [where x = "(k, d')"], assumption)
      apply clarify
      subgoal for d''
        apply (rule exI [where x = d''])
        apply (auto intro: prefix_order.trans)
        done
      done
    done
  done

lemma mergeEmail_keys:
  "map fst (mergeEmail mx h m ed) =
     (if email ed \<in> fst ` set m then map fst m else map fst m @ [email ed])"
  by (auto simp: mergeEmail_def Let_def case_prod_unfold)

lemma mergeEmail_distinct:
  "distinct (map fst m) \<Longrightarrow> distinct (map fst (mergeEmail mx h m ed))"
  by (simp add: mergeEmail_keys)

lemma scored_push:
  "scored mx h (k, d) \<Longrightarrow> scored mx h (k, d\<lparr>sources := sources d @ [s]\<rparr>)"
  by (simp add: scored_def)

lemma mergeEmail_scored:
  assumes "list_all (scored mx h) m"
  shows "list_all (scored mx h) (mergeEmail mx h m ed)"
proof (cases "email ed \<in> fst ` set m")
  case False
  then show ?thesis
    using assms by (simp add: mergeEmail_def Let_def scored_def)
next
  case True
  have "scored mx h (if k = email ed then (k, d\<lparr>sources := sources d @ [source ed]\<rparr>) else (k, d))"
    if "(k, d) \<in> set m" for k d
    using that assms by (auto simp: list_all_iff intro: scored_push)
  then show ?thesis
    using True by (auto simp: mergeEmail_def list_all_iff)
qed

lemma mergeEmail_sameClass: "sameClass m (mergeEmail mx h m ed)"
proof (cases "email ed \<in> fst ` set m")
  case False
  then show ?thesis by (auto simp: mergeEmail_def Let_def sameClass_def)
next
  case True
  then have eq: "mergeEmail mx h m ed =
     map (\<lambda>(k, existing). if k = email ed
               then (k, existing\<lparr>sources := sources existing @ [source ed]\<rparr>)
               else (k, existing)) m"
    by (simp add: mergeEmail_def)
  show ?thesis
    unfolding sameClass_def eq
  proof clarify
    fix k d assume kd: "(k, d) \<in> set m"
    show "\<exists>d'. (k, d') \<in> set (map (\<lambda>(k, existing). if k = email ed
               then (k, existing\<lparr>sources := sources existing @ [source ed]\<rparr>)
               else (k, existing)) m) \<and> emailType d' = emailType d
        \<and> se_confidence d' = se_confidence d \<and> discoveryPath d' = discoveryPath d
        \<and> prefix (sources d) (sources d')"
    proof (cases "k = email ed")
      case True
      with kd show ?thesis
        by (intro exI [where x = "d\<lparr>sources := sources d @ [source ed]\<rparr>"]) force
    next
      case False
      with kd show ?thesis
        by (intro exI [where x = d]) force
    qed
  qed
qed

lemma foldl_mergeEmail:
  "mapInv mx h m \<Longrightarrow>
   mapInv mx h (foldl (mergeEmail mx h) m eds) \<and> sameClass m (foldl (mergeEmail mx h) m eds)"
proof (induction eds arbitrary: m)
  case Nil
  then show ?case by (simp add: sameClass_refl)
next
  case (Cons ed eds)
  have inv: "mapInv mx h (mergeEmail mx h m ed)"
    using Cons.prems by (simp add: mapInv_def mergeEmail_distinct mergeEmail_scored)
  from Cons.IH [OF inv] mergeEmail_sameClass [of m mx h ed]
  show ?case by (auto intro: sameClass_trans)
qed

lemma mergePage_emails:
  "siteEmails (mergePage mx h r u p) = foldl (mergeEmail mx h) (siteEmails r) (emails p)"
  by (simp add: mergePage_def)

lemma crawlPages_emails:
  "mapInv mx h (siteEmails r) \<Longrightarrow>
   mapInv mx h (siteEmails (crawlPages w mx h r us))
   \<and> sameClass (siteEmails r) (siteEmails (crawlPages w mx h r us))"
proof (induction us arbitrary: r)
  case Nil
  then show ?case by (simp add: sameClass_refl)
next
  case (Cons u us)
  show ?case
  proof (cases "result (crawlUrl w u h)")
    case None
    then show ?thesis using Cons by simp
  next
    case (Some p)
    have step: "mapInv mx h (siteEmails (mergePage mx h r u p))"
      "sameClass (siteEmails r) (siteEmails (mergePage mx h r u p))"
      using foldl_mergeEmail [OF Cons.prems, of "emails p"] by (simp_all add: mergePage_emails)
    from Cons.IH [OF step(1)] step(2) Some show ?thesis
      by (auto intro: sameClass_trans)
  qed
qed

lemma scoreEmail_bounds: "0 \<le> scoreEmail e t h \<and> scoreEmail e t h \<le> 100"
  by (simp add: scoreEmail_def)

lemma percent_bounds: "0 \<le> s \<Longrightarrow> s \<le> 100 \<Longrightarrow> 0 \<le> (of_int s / 100 :: rat) \<and> (of_int s / 100 :: rat) \<le> 1"
  by simp

lemma scored_confidence:
  assumes "scored mx h (k, d)"
  shows "0 \<le> se_confidence d \<and> se_confidence d \<le> 1"
proof -
  have "se_confidence d = of_int (scoreEmail k (emailType d) h) / 100"
    using assms by (simp add: scored_def)
  then show ?thesis
    using percent_bounds [of "scoreEmail k (emailType d) h"] scoreEmail_bounds [of k "emailType d" h]
    by simp
qed

lemma collect_Inr:
  "(\<forall>x \<in> set xs. \<exists>v. f x = Inr v) \<Longrightarrow> collect (map f xs) = Inr (map (\<lambda>x. projr (f x)) xs)"
  by (induction xs) (auto split: sum.splits)

lemma toContactRecords_total:
  "\<exists>recs. toContactRecords now r = Inr recs
      \<and> map cr_email recs = map fst (siteEmails r)
      \<and> map cr_confidence recs = map (se_confidence \<circ> snd) (siteEmails r)
      \<and> map cr_emailType recs = map (emailType \<circ> snd) (siteEmails r)"
  unfolding toContactRecords_def
  by (subst collect_Inr) (auto simp: createContactRecord_def case_prod_unfold)

lemma mapInv_entry:
  assumes "mapInv mx h m" "(k, d) \<in> set m"
  shows "emailType d = fst (classifyEmail mx k h)
     \<and> se_confidence d = of_int (scoreEmail k (emailType d) h) / 100
     \<and> 0 \<le> scoreEmail k (emailType d) h \<and> scoreEmail k (emailType d) h \<le> 100
     \<and> 0 \<le> se_confidence d \<and> se_confidence d \<le> 1
     \<and> sources d \<noteq> []"
proof -
  have s: "scored mx h (k, d)"
    using assms by (auto simp: mapInv_def list_all_iff)
  then have "emailType d = fst (classifyEmail mx k h)"
    "se_confidence d = of_int (scoreEmail k (emailType d) h) / 100"
    "sources d \<noteq> []"
    unfolding scored_def prod.case by blast+
  then show ?thesis
    using scored_confidence [OF s] scoreEmail_bounds [of k "emailType d" h]
    by blast
qed

lemma mapInv_empty: "mapInv mx h []"
  by (simp add: mapInv_def)

lemma records_confidence:
  assumes "mapInv mx h (siteEmails r)" "toContactRecords now r = Inr recs"
  shows "length recs = length (siteEmails r) \<and> (\<forall>c \<in> set recs. 0 \<le> cr_confidence c \<and> cr_confidence c \<le> 1)"
proof -
  from toContactRecords_total [of now r] assms(2)
  have conf: "map cr_confidence recs = map (se_confidence \<circ> snd) (siteEmails r)" by auto
  then have len: "length recs = length (siteEmails r)"
    using map_eq_imp_length_eq by blast
  have "0 \<le> cr_confidence c \<and> cr_confidence c \<le> 1" if "c \<in> set recs" for c
  proof -
    have "cr_confidence c \<in> set (map (se_confidence \<circ> snd) (siteEmails r))"
      using that conf by (metis image_eqI list.set_map)
    then obtain k d where kd: "(k, d) \<in> set (siteEmails r)" and eq: "cr_confidence c = se_confidence d"
      by auto
    have "0 \<le> se_confidence d \<and> se_confidence d \<le> 1"
      using mapInv_entry [OF assms(1) kd] by blast
    then show ?thesis unfolding eq .
  qed
  with len show ?thesis by blast
qed

lemma aggregate_keys: "map fst (aggregate mx h eds) = newSet (map email eds)"
  by (simp add: aggregate_def comp_def)

lemma entryOf_other:
  "email ed \<noteq> k \<Longrightarrow> entryOf mx h (eds @ [ed]) k = entryOf mx h eds k"
  by (simp add: entryOf_def)

lemma entryOf_first:
  "email ed \<notin> email ` set eds \<Longrightarrow>
   entryOf mx h (eds @ [ed]) (email ed) =
     \<lparr>se_email = email ed,
      emailType = fst (classifyEmail mx (email ed) h),
      se_confidence = of_int (scoreEmail (email ed) (fst (classifyEmail mx (email ed) h)) h) / 100,
      sources = [source ed],
      discoveryPath = source ed\<rparr>"
proof -
  assume "email ed \<notin> email ` set eds"
  then have "\<forall>e \<in> set eds. email e \<noteq> email ed"
    by (metis imageI)
  then have "filter (\<lambda>e. email e = email ed) eds = []"
    by (simp add: filter_empty_conv)
  then show ?thesis by (simp add: entryOf_def)
qed

lemma entryOf_again:
  assumes "email ed \<in> email ` set eds"
  shows "entryOf mx h (eds @ [ed]) (email ed)
     = (entryOf mx h eds (email ed))\<lparr>sources := sources (entryOf mx h eds (email ed)) @ [source ed]\<rparr>"
proof -
  obtain e rest where "filter (\<lambda>e. email e = email ed) eds = e # rest"
    using assms by (cases "filter (\<lambda>e. email e = email ed) eds") (force simp: filter_empty_conv)+
  then show ?thesis by (simp add: entryOf_def)
qed

lemma mergeEmail_aggregate:
  "mergeEmail mx h (aggregate mx h eds) ed = aggregate mx h (eds @ [ed])"
proof (cases "email ed \<in> email ` set eds")
  case False
  then have notin: "email ed \<notin> fst ` set (aggregate mx h eds)"
    using set_newSet [of "map email eds"] by (auto simp: aggregate_def image_image)
  have keys: "newSet (map email eds @ [email ed]) = newSet (map email eds) @ [email ed]"
    using False set_newSet [of "map email eds"] by (simp add: newSet_snoc setAdd_def)
  have old: "map (\<lambda>k. (k, entryOf mx h (eds @ [ed]) k)) (newSet (map email eds))
           = map (\<lambda>k. (k, entryOf mx h eds k)) (newSet (map email eds))"
  proof (rule map_cong [OF refl])
    fix k assume "k \<in> set (newSet (map email eds))"
    then have "k \<in> email ` set eds" using set_newSet [of "map email eds"] by simp
    with False have "email ed \<noteq> k" by auto
    then show "(k, entryOf mx h (eds @ [ed]) k) = (k, entryOf mx h eds k)"
      by (simp add: entryOf_other)
  qed
  have "mergeEmail mx h (aggregate mx h eds) ed
      = aggregate mx h eds @ [(email ed, entryOf mx h (eds @ [ed]) (email ed))]"
    using notin by (simp add: mergeEmail_def Let_def entryOf_first [OF False])
  also have "\<dots> = aggregate mx h (eds @ [ed])"
    by (simp add: aggregate_def keys old)
  finally show ?thesis .
next
  case True
  then have isin: "email ed \<in> fst ` set (aggregate mx h eds)"
    using set_newSet [of "map email eds"] by (auto simp: aggregate_def image_image)
  have keys: "newSet (map email eds @ [email ed]) = newSet (map email eds)"
    using True set_newSet [of "map email eds"] by (simp add: newSet_snoc setAdd_def)
  have "mergeEmail mx h (aggregate mx h eds) ed
      = map (\<lambda>k. (k, if k = email ed
                       then (entryOf mx h eds k)\<lparr>sources := sources (entryOf mx h eds k) @ [source ed]\<rparr>
                       else entryOf mx h eds k)) (newSet (map email eds))"
    using isin by (simp add: mergeEmail_def aggregate_def comp_def if_distrib cong: if_cong)
  also have "\<dots> = map (\<lambda>k. (k, entryOf mx h (eds @ [ed]) k)) (newSet (map email eds))"
  proof (rule map_cong [OF refl])
    fix k
    show "(k, if k = email ed
                       then (entryOf mx h eds k)\<lparr>sources := sources (entryOf mx h eds k) @ [source ed]\<rparr>
                       else entryOf mx h eds k) = (k, entryOf mx h (eds @ [ed]) k)"
      using entryOf_again [OF True, of mx h] entryOf_other [of ed k mx h eds] by auto
  qed
  also have "\<dots> = aggregate mx h (eds @ [ed])"
    by (simp add: aggregate_def keys)
  finally show ?thesis .
qed

lemma foldl_mergeEmail_aggregate:
  "foldl (mergeEmail mx h) [] eds = aggregate mx h eds"
proof (induction eds rule: rev_induct)
  case Nil
  show ?case by (simp add: aggregate_def newSet_def)
next
  case (snoc ed eds)
  then show ?case by (simp add: mergeEmail_aggregate)
qed

lemma crawlPages_sightings:
  "siteEmails (crawlPages w mx h r us)
     = foldl (mergeEmail mx h) (siteEmails r) (concat (map emails (pageResults w h us)))"
proof (induction us arbitrary: r)
  case Nil
  show ?case by (simp add: pageResults_def List.map_filter_def)
next
  case (Cons u us)
  show ?case
  proof (cases "result (crawlUrl w u h)")
    case None
    then show ?thesis using Cons [of r] by (simp add: pageResults_Cons)
  next
    case (Some p)
    then show ?thesis
      using Cons [of "mergePage mx h r u p"]
      by (simp add: pageResults_Cons mergePage_emails)
  qed
qed

lemma crawlPages_aggregate:
  "siteEmails r = [] \<Longrightarrow>
   siteEmails (crawlPages w mx h r us) = aggregate mx h (concat (map emails (pageResults w h us)))"
  by (simp add: crawlPages_sightings foldl_mergeEmail_aggregate)

lemma aggregate_entry:
  assumes "(k, d) \<in> set (aggregate mx h eds)"
  shows "d = entryOf mx h eds k" "k \<in> email ` set eds"
  using assms set_newSet [of "map email eds"] by (auto simp: aggregate_def)

lemma aggregate_key_set: "set (map fst (aggregate mx h eds)) = email ` set eds"
  using set_newSet [of "map email eds"] by (simp add: aggregate_keys)

text \<open>
  C7: for every site crawl and every sequence of pages merged into an aggregate that
  starts without emails: the emails map has no duplicate key, and its keys are exactly the
  addresses sighted on the pages; the map is the one the sightings have to give, so every
  entry is keyed by its address, its sources are the sources of all sightings of the
  address in crawl order (a later sighting appends its source) and its discovery path is
  the source of the first sighting; an entry that is in the map after some pages is still
  there after more pages, with the same type, confidence and discovery path, its sources
  only extended at the end; every entry carries the type that \<open>classifyEmail\<close> gives its
  address and the confidence \<open>score / 100\<close> for the integer \<open>score\<close> of \<open>scoreEmail\<close>,
  which lies between 0 and 100; so every stored confidence, and the confidence of every
  emitted record, lies between 0 and 1.
\<close>

theorem emails_classified_once:
  assumes "siteEmails r = []"
  shows "distinct (map fst (siteEmails (crawlPages w mx h r (us @ vs))))
     \<and> set (map fst (siteEmails (crawlPages w mx h r (us @ vs))))
          = email ` set (concat (map emails (pageResults w h (us @ vs))))
     \<and> siteEmails (crawlPages w mx h r (us @ vs))
          = aggregate mx h (concat (map emails (pageResults w h (us @ vs))))
     \<and> (\<forall>(k, d) \<in> set (siteEmails (crawlPages w mx h r (us @ vs))).
          se_email d = k
          \<and> sources d = map source (filter (\<lambda>e. email e = k)
                                       (concat (map emails (pageResults w h (us @ vs)))))
          \<and> (\<exists>e rest. filter (\<lambda>e. email e = k) (concat (map emails (pageResults w h (us @ vs)))) = e # rest
                \<and> discoveryPath d = source e))
     \<and> (\<forall>(k, d) \<in> set (siteEmails (crawlPages w mx h r us)).
          \<exists>d'. (k, d') \<in> set (siteEmails (crawlPages w mx h r (us @ vs)))
             \<and> emailType d' = emailType d \<and> se_confidence d' = se_confidence d
             \<and> discoveryPath d' = discoveryPath d \<and> prefix (sources d) (sources d'))
     \<and> (\<forall>(k, d) \<in> set (siteEmails (crawlPages w mx h r (us @ vs))).
          emailType d = fst (classifyEmail mx k h)
          \<and> se_confidence d = of_int (scoreEmail k (emailType d) h) / 100
          \<and> 0 \<le> scoreEmail k (emailType d) h \<and> scoreEmail k (emailType d) h \<le> 100
          \<and> 0 \<le> se_confidence d \<and> se_confidence d \<le> 1
          \<and> sources d \<noteq> [])
     \<and> (\<exists>recs. toContactRecords now (crawlPages w mx h r (us @ vs)) = Inr recs
          \<and> length recs = length (siteEmails (crawlPages w mx h r (us @ vs)))
          \<and> (\<forall>c \<in> set recs. 0 \<le> cr_confidence c \<and> cr_confidence c \<le> 1))"
proof -
  let ?r0 = "crawlPages w mx h r us"
  let ?r1 = "crawlPages w mx h r (us @ vs)"
  let ?S = "concat (map emails (pageResults w h (us @ vs)))"
  have agg: "siteEmails ?r1 = aggregate mx h ?S"
    using assms by (rule crawlPages_aggregate)
  have keys: "set (map fst (siteEmails ?r1)) = email ` set ?S"
    unfolding agg by (rule aggregate_key_set)
  have src: "\<forall>(k, d) \<in> set (siteEmails ?r1).
          se_email d = k
          \<and> sources d = map source (filter (\<lambda>e. email e = k) ?S)
          \<and> (\<exists>e rest. filter (\<lambda>e. email e = k) ?S = e # rest \<and> discoveryPath d = source e)"
  proof clarify
    fix k d assume "(k, d) \<in> set (siteEmails ?r1)"
    then have d: "d = entryOf mx h ?S k" and k: "k \<in> email ` set ?S"
      unfolding agg by (rule aggregate_entry)+
    from k obtain e rest where f: "filter (\<lambda>e. email e = k) ?S = e # rest"
      by (cases "filter (\<lambda>e. email e = k) ?S") (force simp: filter_empty_conv)+
    have "discoveryPath d = source e"
      unfolding d entryOf_def using f by simp
    moreover have "se_email d = k" "sources d = map source (filter (\<lambda>e. email e = k) ?S)"
      unfolding d entryOf_def by simp_all
    ultimately show "se_email d = k
          \<and> sources d = map source (filter (\<lambda>e. email e = k) ?S)
          \<and> (\<exists>e rest. filter (\<lambda>e. email e = k) ?S = e # rest \<and> discoveryPath d = source e)"
      using f by blast
  qed
  have r1: "?r1 = crawlPages w mx h ?r0 vs" by (rule crawlPages_append)
  have start: "mapInv mx h (siteEmails r)" using assms by (simp add: mapInv_empty)
  have inv0: "mapInv mx h (siteEmails ?r0)"
    using crawlPages_emails [OF start] by blast
  have inv1: "mapInv mx h (siteEmails ?r1)" and same: "sameClass (siteEmails ?r0) (siteEmails ?r1)"
    unfolding r1 using crawlPages_emails [OF inv0] by blast+
  have a: "distinct (map fst (siteEmails ?r1))"
    using inv1 by (simp add: mapInv_def)
  have b: "\<forall>(k, d) \<in> set (siteEmails ?r0).
          \<exists>d'. (k, d') \<in> set (siteEmails ?r1)
             \<and> emailType d' = emailType d \<and> se_confidence d' = se_confidence d
             \<and> discoveryPath d' = discoveryPath d \<and> prefix (sources d) (sources d')"
    using same unfolding sameClass_def .
  have c: "\<forall>(k, d) \<in> set (siteEmails ?r1).
          emailType d = fst (classifyEmail mx k h)
          \<and> se_confidence d = of_int (scoreEmail k (emailType d) h) / 100
          \<and> 0 \<le> scoreEmail k (emailType d) h \<and> scoreEmail k (emailType d) h \<le> 100
          \<and> 0 \<le> se_confidence d \<and> se_confidence d \<le> 1
          \<and> sources d \<noteq> []"
    using mapInv_entry [OF inv1] by blast
  obtain recs where recs: "toContactRecords now ?r1 = Inr recs"
    using toContactRecords_total [of now ?r1] by blast
  have d: "\<exists>recs. toContactRecords now ?r1 = Inr recs
          \<and> length recs = length (siteEmails ?r1)
          \<and> (\<forall>c \<in> set recs. 0 \<le> cr_confidence c \<and> cr_confidence c \<le> 1)"
    using records_confidence [OF inv1 recs] recs by blast
  from a keys agg src b c d show ?thesis by blast
qed

lemma acme_cached:
  "crawlUrl acme ''https://acme.se'' ''acme.se'' = \<lparr>result = Some acmeRoot, metrics = []\<rparr>"
  "crawlUrl acme ''https://acme.se/kontakt'' ''acme.se'' = \<lparr>result = Some acmeKontakt, metrics = []\<rparr>"
  by (rule crawlUrl_cached, simp add: acme_def)+

lemma acme_info:
  "fst (classifyEmail None ''info@acme.se'' ''acme.se'') = Role"
  "scoreEmail ''info@acme.se'' Role ''acme.se'' = 100"
  by (simp_all add: classifyEmail_def scoreEmail_def rawScore_def ROLE_LOCALPARTS_def str_eval)

lemma acme_anna:
  "fst (classifyEmail None ''anna@gmail.com'' ''acme.se'') = Personal"
  "scoreEmail ''anna@gmail.com'' Personal ''acme.se'' = 40"
  by (simp_all add: classifyEmail_def scoreEmail_def rawScore_def ROLE_LOCALPARTS_def
        GENERIC_DOMAINS_def str_eval)

theorem emails_classified_once_witness:
  "siteEmails (initialResults ''https://acme.se'' ''acme.se'' ''Acme AB'') = []
   \<and> concat (map emails (pageResults acme ''acme.se'' ([''https://acme.se''] @ [''https://acme.se/kontakt''])))
     = [\<lparr>email = ''info@acme.se'', source = ''mailto'', confidence = 85 / 100\<rparr>,
        \<lparr>email = ''anna@gmail.com'', source = ''inline'', confidence = 50 / 100\<rparr>,
        \<lparr>email = ''info@acme.se'', source = ''inline'', confidence = 70 / 100\<rparr>]
   \<and> siteEmails (crawlPages acme None ''acme.se''
        (initialResults ''https://acme.se'' ''acme.se'' ''Acme AB'') [''https://acme.se''])
     = [(''info@acme.se'', \<lparr>se_email = ''info@acme.se'', emailType = Role, se_confidence = 1,
                              sources = [''mailto''], discoveryPath = ''mailto''\<rparr>),
        (''anna@gmail.com'', \<lparr>se_email = ''anna@gmail.com'', emailType = Personal, se_confidence = 2 / 5,
                              sources = [''inline''], discoveryPath = ''inline''\<rparr>)]
   \<and> siteEmails (crawlPages acme None ''acme.se''
        (initialResults ''https://acme.se'' ''acme.se'' ''Acme AB'')
        ([''https://acme.se''] @ [''https://acme.se/kontakt'']))
     = [(''info@acme.se'', \<lparr>se_email = ''info@acme.se'', emailType = Role, se_confidence = 1,
                              sources = [''mailto'', ''inline''], discoveryPath = ''mailto''\<rparr>),
        (''anna@gmail.com'', \<lparr>se_email = ''anna@gmail.com'', emailType = Personal, se_confidence = 2 / 5,
                              sources = [''inline''], discoveryPath = ''inline''\<rparr>)]"
  using emails_classified_once [of "initialResults ''https://acme.se'' ''acme.se'' ''Acme AB''"
      acme None "''acme.se''" "[''https://acme.se'']" "[''https://acme.se/kontakt'']" "''now''"]
  by (simp add: acme_cached acme_info acme_anna initialResults_def mergePage_def mergeEmail_def
        acmeRoot_def acmeKontakt_def pageResults_def List.map_filter_def)

section \<open>The retry policy of the fetcher\<close>

lemma fetchHtml_rejected:
  "network a = Inl rej \<Longrightarrow> fetchHtml M network random a = failed [] (Rejected rej)"
  by (subst fetchHtml.simps) simp

lemma fetchHtml_retry:
  assumes "network a = Inr res" "500 \<le> status res" "int a < M"
  shows "fetchHtml M network random a =
     (fetchHtml M network random (a + 1))
       \<lparr>delays := (backoff a + random a * 1000) # delays (fetchHtml M network random (a + 1)),
        requests := Suc (requests (fetchHtml M network random (a + 1)))\<rparr>"
  using assms by (subst fetchHtml.simps) (simp add: ok_def Let_def)

lemma fetchHtml_http_error:
  assumes "network a = Inr res" "\<not> ok res" "status res < 500 \<or> \<not> int a < M"
  shows "fetchHtml M network random a =
     failed [if status res = 403 \<or> status res = 429 then Blocked
             else if status res = 404 then NotFound404 else Error]
            (HttpError (status res))"
  using assms by (subst fetchHtml.simps) auto

lemma fetchHtml_non_html:
  assumes "network a = Inr res" "ok res"
    "\<not> includes_s (case contentType res of None \<Rightarrow> [] | Some c \<Rightarrow> c) ''text/html''"
  shows "fetchHtml M network random a =
     failed [NonHtml] (NonHtmlContent (case contentType res of None \<Rightarrow> [] | Some c \<Rightarrow> c))"
  using assms by (subst fetchHtml.simps) (simp add: Let_def)

lemma fetchHtml_success:
  assumes "network a = Inr res" "ok res"
    "includes_s (case contentType res of None \<Rightarrow> [] | Some c \<Rightarrow> c) ''text/html''"
    "bodyText res = Inr html"
  shows "fetchHtml M network random a =
     \<lparr>outcome = Inr html, counted = [Success], delays = [], requests = 1\<rparr>"
  using assms by (subst fetchHtml.simps) (simp add: Let_def)

lemma upt_shift: "[a ..< a + Suc n] = a # [a + 1 ..< a + 1 + n]"
  by (subst upt_rec) simp

lemma fetchHtml_delays:
  "\<exists>n. delays (fetchHtml M network random a) = map (\<lambda>k. backoff k + random k * 1000) [a ..< a + n]
       \<and> int n \<le> max 0 (M - int a)
       \<and> requests (fetchHtml M network random a) = Suc n"
proof (induction M network random a rule: fetchHtml.induct)
  case (1 M network random a)
  let ?f = "\<lambda>k. backoff k + random k * 1000"
  have single: "?case" if "delays (fetchHtml M network random a) = []"
    "requests (fetchHtml M network random a) = 1"
    using that by (intro exI [where x = 0]) simp
  show ?case
  proof (cases "network a")
    case (Inl rej)
    then show ?thesis by (intro single) (simp_all add: fetchHtml_rejected failed_def)
  next
    case (Inr res)
    show ?thesis
    proof (cases "\<not> ok res \<and> 500 \<le> status res \<and> int a < M")
      case True
      then have retry: "500 \<le> status res" "int a < M" by simp_all
      let ?run = "fetchHtml M network random (a + 1)"
      from "1.IH" [OF Inr True refl refl]
      obtain n where n: "delays ?run = map ?f [a + 1 ..< a + 1 + n]"
        "int n \<le> max 0 (M - int (a + 1))" "requests ?run = Suc n"
        by blast
      have eq: "fetchHtml M network random a =
          ?run\<lparr>delays := ?f a # delays ?run, requests := Suc (requests ?run)\<rparr>"
        using Inr retry by (rule fetchHtml_retry)
      have "delays (fetchHtml M network random a) = map ?f [a ..< a + Suc n]"
        unfolding eq upt_shift using n(1) by simp
      moreover have "int (Suc n) \<le> max 0 (M - int a)"
        using n(2) retry by simp
      moreover have "requests (fetchHtml M network random a) = Suc (Suc n)"
        unfolding eq using n(3) by simp
      ultimately show ?thesis by blast
    next
      case False
      show ?thesis
      proof (cases "ok res")
        case notok: False
        with False have "status res < 500 \<or> \<not> int a < M" by auto
        then have "fetchHtml M network random a =
           failed [if status res = 403 \<or> status res = 429 then Blocked
                   else if status res = 404 then NotFound404 else Error]
                  (HttpError (status res))"
          using Inr notok by (intro fetchHtml_http_error)
        then show ?thesis
          by (intro single) (simp_all add: failed_def)
      next
        case True
        show ?thesis
        proof (cases "includes_s (case contentType res of None \<Rightarrow> [] | Some c \<Rightarrow> c) ''text/html''")
          case html: True
          show ?thesis
          proof (cases "bodyText res")
            case (Inl rej)
            have "fetchHtml M network random a = failed [] (Rejected rej)"
              using Inr True html Inl by (subst fetchHtml.simps) (simp add: Let_def)
            then show ?thesis by (intro single) (simp_all add: failed_def)
          next
            case body: (Inr h)
            have "fetchHtml M network random a =
               \<lparr>outcome = Inr h, counted = [Success], delays = [], requests = 1\<rparr>"
              using Inr True html body by (intro fetchHtml_success)
            then show ?thesis
              by (intro single) simp_all
          qed
        next
          case False
          have "fetchHtml M network random a =
             failed [NonHtml] (NonHtmlContent (case contentType res of None \<Rightarrow> [] | Some c \<Rightarrow> c))"
            using Inr True False by (intro fetchHtml_non_html)
          then show ?thesis
            by (intro single) (simp_all add: failed_def)
        qed
      qed
    qed
  qed
qed

lemma backoff_values: "backoff 0 = 1000" "backoff 1 = 2000" "backoff 2 = 4000" "backoff 3 = 8000" "3 \<le> k \<Longrightarrow> backoff k = 8000"
proof -
  show "backoff 0 = 1000" "backoff 1 = 2000" "backoff 2 = 4000" "backoff 3 = 8000"
    by (simp_all add: backoff_def)
  assume "3 \<le> k"
  then have "(2::rat) ^ 3 \<le> 2 ^ k" by (intro power_increasing) simp_all
  then show "backoff k = 8000" by (simp add: backoff_def)
qed

lemma jitter_range: "0 \<le> (x::rat) \<Longrightarrow> x < 1 \<Longrightarrow> 0 \<le> x * 1000 \<and> x * 1000 < 1000"
  by simp

lemma ok_status: "ok res \<longleftrightarrow> 200 \<le> status res \<and> status res \<le> 299"
  by (simp add: ok_def)

text \<open>
  C9: for every fetch whose request of attempt \<open>a\<close> is answered, with \<open>Math.random()\<close>
  drawing from \<open>[0, 1)\<close>: \<open>MAX_RETRIES\<close> is 3 by default; a status of 500 or more is
  retried while \<open>a < MAX_RETRIES\<close>, after a delay of \<open>min(1000 * 2^a, 8000)\<close> plus a
  jitter in \<open>[0, 1000)\<close>, and the run sleeps at most \<open>MAX_RETRIES - a\<close> such delays; a
  status from 400 to 499 is never retried; 403 and 429 count as blocked, 404 as not found
  and any other status outside 200..299 that is not retried as error, each failing with
  \<open>HTTP status\<close>; a 2xx response whose content type does not contain \<open>text/html\<close> fails
  as non-HTML.  (The \<open>catch\<close> block counts every one of these failures as error once more.)
\<close>

theorem fetchHtml_retry_policy:
  assumes net: "network a = Inr res"
    and rnd: "\<forall>k. 0 \<le> random k \<and> random k < 1"
  shows "maxRetries None = 3
     \<and> (500 \<le> status res \<and> int a < M \<longrightarrow>
          (\<exists>jitter. 0 \<le> jitter \<and> jitter < 1000
             \<and> fetchHtml M network random a =
                 (fetchHtml M network random (a + 1))
                   \<lparr>delays := (min (1000 * 2 ^ a) 8000 + jitter) # delays (fetchHtml M network random (a + 1)),
                    requests := Suc (requests (fetchHtml M network random (a + 1)))\<rparr>))
     \<and> (\<exists>n. int n \<le> max 0 (M - int a)
            \<and> requests (fetchHtml M network random a) = Suc n
            \<and> delays (fetchHtml M network random a)
                = map (\<lambda>k. min (1000 * 2 ^ k) 8000 + random k * 1000) [a ..< a + n])
     \<and> (400 \<le> status res \<and> status res < 500 \<longrightarrow>
          requests (fetchHtml M network random a) = 1
          \<and> delays (fetchHtml M network random a) = []
          \<and> outcome (fetchHtml M network random a) = Inl (HttpError (status res)))
     \<and> (status res = 403 \<or> status res = 429 \<longrightarrow>
          counted (fetchHtml M network random a) = [Blocked, Error])
     \<and> (status res = 404 \<longrightarrow>
          counted (fetchHtml M network random a) = [NotFound404, Error])
     \<and> (\<not> ok res \<and> (status res < 500 \<or> \<not> int a < M)
          \<and> status res \<noteq> 403 \<and> status res \<noteq> 429 \<and> status res \<noteq> 404 \<longrightarrow>
          outcome (fetchHtml M network random a) = Inl (HttpError (status res))
          \<and> counted (fetchHtml M network random a) = [Error, Error])
     \<and> (ok res \<and> \<not> includes_s (case contentType res of None \<Rightarrow> [] | Some c \<Rightarrow> c) ''text/html'' \<longrightarrow>
          outcome (fetchHtml M network random a)
            = Inl (NonHtmlContent (case contentType res of None \<Rightarrow> [] | Some c \<Rightarrow> c))
          \<and> counted (fetchHtml M network random a) = [NonHtml, Error]
          \<and> requests (fetchHtml M network random a) = 1)"
proof -
  have default: "maxRetries None = 3"
    by (simp add: maxRetries_def)
  have retry: "500 \<le> status res \<and> int a < M \<longrightarrow>
          (\<exists>jitter. 0 \<le> jitter \<and> jitter < 1000
             \<and> fetchHtml M network random a =
                 (fetchHtml M network random (a + 1))
                   \<lparr>delays := (min (1000 * 2 ^ a) 8000 + jitter) # delays (fetchHtml M network random (a + 1)),
                    requests := Suc (requests (fetchHtml M network random (a + 1)))\<rparr>)"
  proof
    assume r: "500 \<le> status res \<and> int a < M"
    have j: "0 \<le> random a * 1000 \<and> random a * 1000 < 1000"
      using rnd jitter_range [of "random a"] by blast
    have "fetchHtml M network random a =
        (fetchHtml M network random (a + 1))
          \<lparr>delays := (backoff a + random a * 1000) # delays (fetchHtml M network random (a + 1)),
           requests := Suc (requests (fetchHtml M network random (a + 1)))\<rparr>"
      using fetchHtml_retry [of network a res M random] net r by blast
    with j show "\<exists>jitter. 0 \<le> jitter \<and> jitter < 1000
             \<and> fetchHtml M network random a =
                 (fetchHtml M network random (a + 1))
                   \<lparr>delays := (min (1000 * 2 ^ a) 8000 + jitter) # delays (fetchHtml M network random (a + 1)),
                    requests := Suc (requests (fetchHtml M network random (a + 1)))\<rparr>"
      unfolding backoff_def by blast
  qed
  have bound: "\<exists>n. int n \<le> max 0 (M - int a)
            \<and> requests (fetchHtml M network random a) = Suc n
            \<and> delays (fetchHtml M network random a)
                = map (\<lambda>k. min (1000 * 2 ^ k) 8000 + random k * 1000) [a ..< a + n]"
    using fetchHtml_delays [of M network random a] unfolding backoff_def by blast
  have fail: "fetchHtml M network random a =
       failed [if status res = 403 \<or> status res = 429 then Blocked
               else if status res = 404 then NotFound404 else Error]
              (HttpError (status res))"
    if "\<not> ok res" "status res < 500 \<or> \<not> int a < M"
    using fetchHtml_http_error [of network a res M random] net that by blast
  have client: "400 \<le> status res \<and> status res < 500 \<longrightarrow>
          requests (fetchHtml M network random a) = 1
          \<and> delays (fetchHtml M network random a) = []
          \<and> outcome (fetchHtml M network random a) = Inl (HttpError (status res))"
    using fail by (simp add: ok_status failed_def)
  have blocked: "status res = 403 \<or> status res = 429 \<longrightarrow>
          counted (fetchHtml M network random a) = [Blocked, Error]"
    using fail by (auto simp: ok_status failed_def caught_def)
  have missing: "status res = 404 \<longrightarrow>
          counted (fetchHtml M network random a) = [NotFound404, Error]"
    using fail by (auto simp: ok_status failed_def caught_def)
  have other: "\<not> ok res \<and> (status res < 500 \<or> \<not> int a < M)
          \<and> status res \<noteq> 403 \<and> status res \<noteq> 429 \<and> status res \<noteq> 404 \<longrightarrow>
          outcome (fetchHtml M network random a) = Inl (HttpError (status res))
          \<and> counted (fetchHtml M network random a) = [Error, Error]"
    using fail by (auto simp: failed_def caught_def)
  have nonhtml: "ok res \<and> \<not> includes_s (case contentType res of None \<Rightarrow> [] | Some c \<Rightarrow> c) ''text/html'' \<longrightarrow>
          outcome (fetchHtml M network random a)
            = Inl (NonHtmlContent (case contentType res of None \<Rightarrow> [] | Some c \<Rightarrow> c))
          \<and> counted (fetchHtml M network random a) = [NonHtml, Error]
          \<and> requests (fetchHtml M network random a) = 1"
  proof
    assume h: "ok res \<and> \<not> includes_s (case contentType res of None \<Rightarrow> [] | Some c \<Rightarrow> c) ''text/html''"
    have "fetchHtml M network random a =
       failed [NonHtml] (NonHtmlContent (case contentType res of None \<Rightarrow> [] | Some c \<Rightarrow> c))"
      using fetchHtml_non_html [of network a res M random] net h by blast
    then show "outcome (fetchHtml M network random a)
            = Inl (NonHtmlContent (case contentType res of None \<Rightarrow> [] | Some c \<Rightarrow> c))
          \<and> counted (fetchHtml M network random a) = [NonHtml, Error]
          \<and> requests (fetchHtml M network random a) = 1"
      by (simp add: failed_def caught_def)
  qed
  from default retry bound client blocked missing other nonhtml show ?thesis by blast
qed

theorem fetchHtml_retry_policy_witness:
  "flaky 0 = Inr \<lparr>status = 503, contentType = Some ''text/html; charset=utf-8'', bodyText = Inr []\<rparr>
   \<and> (\<forall>k::nat. (0::rat) \<le> 1 / 2 \<and> (1 / 2 :: rat) < 1)
   \<and> fetchHtml (maxRetries None) flaky (\<lambda>k. 1 / 2) 0
      = \<lparr>outcome = Inl (HttpError 403), counted = [Blocked, Error], delays = [1500], requests = 2\<rparr>"
proof -
  have f0: "flaky 0 = Inr \<lparr>status = 503, contentType = Some ''text/html; charset=utf-8'', bodyText = Inr []\<rparr>"
    by (simp add: flaky_def)
  have f1: "flaky (0 + 1) = Inr \<lparr>status = 403, contentType = Some ''text/html; charset=utf-8'', bodyText = Inr []\<rparr>"
    by (simp add: flaky_def)
  have rnd: "\<forall>k::nat. (0::rat) \<le> 1 / 2 \<and> (1 / 2 :: rat) < 1" by simp
  have second: "fetchHtml 3 flaky (\<lambda>k. 1 / 2) (0 + 1)
      = \<lparr>outcome = Inl (HttpError 403), counted = [Blocked, Error], delays = [], requests = 1\<rparr>"
    using fetchHtml_http_error [of flaky "0 + 1"
        "\<lparr>status = 403, contentType = Some ''text/html; charset=utf-8'', bodyText = Inr []\<rparr>"
        3 "\<lambda>k. 1 / 2"] f1
    by (simp add: ok_def failed_def caught_def)
  note policy = fetchHtml_retry_policy [where network = flaky and a = 0 and M = 3
      and random = "\<lambda>k. 1 / 2"
      and res = "\<lparr>status = 503, contentType = Some ''text/html; charset=utf-8'', bodyText = Inr []\<rparr>",
      OF f0 rnd]
  from policy
  obtain jitter where "fetchHtml 3 flaky (\<lambda>k. 1 / 2) 0 =
      (fetchHtml 3 flaky (\<lambda>k. 1 / 2) (0 + 1))
        \<lparr>delays := (min (1000 * 2 ^ 0) 8000 + jitter) # delays (fetchHtml 3 flaky (\<lambda>k. 1 / 2) (0 + 1)),
         requests := Suc (requests (fetchHtml 3 flaky (\<lambda>k. 1 / 2) (0 + 1)))\<rparr>"
    by auto
  moreover from policy
  obtain n where "delays (fetchHtml 3 flaky (\<lambda>k. 1 / 2) 0)
       = map (\<lambda>k. min (1000 * 2 ^ k) 8000 + (1 / 2) * 1000) [0 ..< 0 + n]"
    by auto
  ultimately have "fetchHtml 3 flaky (\<lambda>k. 1 / 2) 0
      = \<lparr>outcome = Inl (HttpError 403), counted = [Blocked, Error], delays = [1500], requests = 2\<rparr>"
    unfolding second by (cases n) (auto simp: upt_rec)
  with f0 rnd show ?thesis by (simp add: maxRetries_def)
qed

section \<open>Captcha pages\<close>

text \<open>
  C2, at the failing input: a page answered with status 200 whose body contains
  \<open>Just a moment...\<close> matches the indicator list of \<open>hasCaptcha\<close>, but
  \<open>handleCaptcha\<close> does not skip it, \<open>crawlUrl\<close> returns a page result for it, and the
  captcha counter is not incremented.
\<close>

theorem interstitial_not_skipped:
  "hasCaptcha ''<html><title>Just a moment...</title></html>''
   \<and> handleCaptcha ''https://example.se'' ''<html><title>Just a moment...</title></html>''
       = \<lparr>skip = False, skipReason = None\<rparr>
   \<and> result (crawlUrl (scenario [interstitial]) ''https://example.se'' ''example.se'')
       = Some \<lparr>emails = [], phones = [],
               socials = \<lparr>linkedin = None, facebook = None, twitterX = None\<rparr>\<rparr>
   \<and> CrawlCounter Captcha ''example.se''
       \<notin> set (metrics (crawlUrl (scenario [interstitial]) ''https://example.se'' ''example.se''))"
proof -
  let ?html = "''<html><title>Just a moment...</title></html>''"
  have has: "hasCaptcha ?html"
    by (simp add: hasCaptcha_def str_eval)
  have handle: "handleCaptcha ''https://example.se'' ?html = \<lparr>skip = False, skipReason = None\<rparr>"
    by (simp add: handleCaptcha_def getCaptchaType_def str_eval)
  have fetched: "fetchLimited (scenario [interstitial]) ''https://example.se'' = Inr ?html"
    by (rule scenario_served) (simp add: interstitial_def)
  have doc: "cheerio (scenario [interstitial]) ?html = emptyDocument"
    by (rule scenario_served) (simp add: interstitial_def)
  have ex: "extractContacts (parseURL (platform (scenario [interstitial])))
       (cheerio (scenario [interstitial]) ?html) ''https://example.se'' ''example.se''
     = Some \<lparr>x_emails = [], x_phones = [],
             x_socials = \<lparr>linkedin = None, facebook = None, twitterX = None\<rparr>\<rparr>"
    unfolding doc scenario_fields
    by (simp add: extractContacts_def examplePlatform_def emptyDocument_def)
  note page = crawlUrl_page [where w = "scenario [interstitial]" and u = "''https://example.se''"
      and h = "''example.se''" and html = ?html, OF _ _ _ fetched _ ex]
  have pre: "getCached (scenario [interstitial]) ''https://example.se'' = None"
    "safe (isSafeUrl (platform (scenario [interstitial])) ''https://example.se'')"
    "fst (isAllowed (scenario [interstitial]) ''https://example.se'')"
    "\<not> skip (handleCaptcha ''https://example.se'' ?html)"
    by (simp_all add: scenario_fields examplePlatform_safe handle)
  have res: "result (crawlUrl (scenario [interstitial]) ''https://example.se'' ''example.se'')
       = Some \<lparr>emails = [], phones = [],
               socials = \<lparr>linkedin = None, facebook = None, twitterX = None\<rparr>\<rparr>"
    unfolding page(1) [OF pre] doc
    by (simp add: cleanEmails_def emptyDocument_def parsePhonesFromText_def newSet_def
          List.map_filter_def matchPhoneAt_def str_eval)
  from has handle res page(2) [OF pre] show ?thesis by blast
qed

section \<open>IP literals\<close>

lemma blocked_literal:
  assumes "parseURL r u = Some p" "protocol p = ''http:'' \<or> protocol p = ''https:''"
    "isIP r (hostname p) \<noteq> 0"
    "startsWith (hostname p) ''127.'' \<or> startsWith (hostname p) ''10.'' \<or> pat172 (hostname p)
     \<or> startsWith (hostname p) ''192.168.'' \<or> startsWith (hostname p) ''169.254.''
     \<or> hostname p = ''::1'' \<or> startsWith (hostname p) ''fe80:'' \<or> startsWith (hostname p) ''fc00:''
     \<or> startsWith (hostname p) ''0.''"
  shows "isSafeUrl r u = \<lparr>safe = False, safeReason = Some ''Private IP address blocked''\<rparr>"
proof -
  have "blockedIp (hostname p)"
    using assms(4) by (auto simp: blockedIp_def BLOCKED_IP_PATTERNS_def)
  then show ?thesis
    using assms(1-3) by (auto simp: isSafeUrl_def)
qed

text \<open>
  C5, at the failing input: the URL \<open>http://[fd00::1]/\<close> has an IPv6 literal of the
  unique-local range \<open>fc00::/7\<close> as its host, and \<open>isSafeUrl\<close> answers that it is safe,
  whether the host name reaches the patterns with its brackets or without them.
\<close>

theorem unique_local_literal_not_blocked:
  "isSafeUrl bracketed ''http://[fd00::1]/'' = \<lparr>safe = True, safeReason = None\<rparr>
   \<and> isSafeUrl unbracketed ''http://[fd00::1]/'' = \<lparr>safe = True, safeReason = None\<rparr>"
  by (simp add: isSafeUrl_def bracketed_def unbracketed_def blockedIp_def BLOCKED_IP_PATTERNS_def
        pat172_def startsWith_def)

section \<open>The happy path\<close>

text \<open>
  C3, as stated (confidence about 0.90), fails: \<open>info@example.se\<close> on the site
  \<open>example.se\<close> is a role address with score 60, since the address contains \<open>example\<close>,
  which costs 50 points; its confidence 0.60 is not within 0.1 of 0.90.
\<close>

theorem happy_path_confidence_counterexample:
  "fst (classifyEmail None ''info@example.se'' ''example.se'') = Role
   \<and> scoreEmail ''info@example.se'' Role ''example.se'' = 60
   \<and> \<not> \<bar>rat_of_int (scoreEmail ''info@example.se'' Role ''example.se'') / 100 - 9 / 10\<bar> < 1 / 10"
proof -
  have "fst (classifyEmail None ''info@example.se'' ''example.se'') = Role"
    by (simp add: classifyEmail_def ROLE_LOCALPARTS_def str_eval)
  moreover have "scoreEmail ''info@example.se'' Role ''example.se'' = 60"
    by (simp add: scoreEmail_def rawScore_def ROLE_LOCALPARTS_def str_eval)
  ultimately show ?thesis by simp
qed

lemma happy_crawlUrl:
  "result (crawlUrl (scenario [happyPage]) ''https://example.se'' ''example.se'')
     = Some \<lparr>emails = [\<lparr>email = ''info@example.se'', source = ''mailto'', confidence = 85 / 100\<rparr>],
             phones = [''+4684002227''],
             socials = \<lparr>linkedin = None, facebook = None, twitterX = None\<rparr>\<rparr>"
proof -
  let ?w = "scenario [happyPage]"
  let ?html = "''<a href=mailto:info@example.se></a><a href=tel:+4684002227></a>''"
  let ?doc = "emptyDocument\<lparr>mailtoHrefs := [''mailto:info@example.se''],
                     telHrefs := [''tel:+4684002227'']\<rparr>"
  have handle: "\<not> skip (handleCaptcha ''https://example.se'' ?html)"
    by (simp add: handleCaptcha_def getCaptchaType_def str_eval)
  have fetched: "fetchLimited ?w ''https://example.se'' = Inr ?html"
    by (rule scenario_served) (simp add: happyPage_def)
  have doc: "cheerio ?w ?html = ?doc"
    by (rule scenario_served) (simp add: happyPage_def)
  have ex: "extractContacts (parseURL (platform ?w)) (cheerio ?w ?html) ''https://example.se'' ''example.se''
     = Some \<lparr>x_emails = [mkEvidence ''info@example.se'' ''mailto'' (85 / 100)], x_phones = [],
             x_socials = \<lparr>linkedin = None, facebook = None, twitterX = None\<rparr>\<rparr>"
    unfolding doc scenario_fields
    by (simp add: extractContacts_def examplePlatform_def emptyDocument_def mailtoAddress_def str_eval)
  have pre: "getCached ?w ''https://example.se'' = None"
    "safe (isSafeUrl (platform ?w) ''https://example.se'')"
    "fst (isAllowed ?w ''https://example.se'')"
    by (simp_all add: scenario_fields examplePlatform_safe)
  have em: "cleanEmails oneAt (Some [mkEvidence ''info@example.se'' ''mailto'' c]) ''example.se''
     = [\<lparr>email = ''info@example.se'', source = ''mailto'', confidence = c\<rparr>]" for c
    by (simp add: cleanEmails_def mkEvidence_def itemEmail_def BAD_EMAILS_def oneAt_def tldOf_def
          ALLOWED_TLDS_def str_eval)
  have ph: "parsePhonesFromText swedish ''+4684002227 '' = [''+4684002227'']"
    by (simp add: parsePhonesFromText_def newSet_def setAdd_def List.map_filter_def matchPhoneAt_def
          phoneClass_def normalizePhone_def swedish_def str_eval)
  show ?thesis
    unfolding crawlUrl_page(1) [OF pre fetched handle ex] doc scenario_fields
    by (simp add: em ph telNumber_def emptyDocument_def)
qed

lemma happy_site:
  "crawlSite (scenario [happyPage]) DNC_LIST None ''https://example.se'' ''example.se'' ''Example AB'' (Some 1)
     = \<lparr>companyName = ''Example AB'', website = ''https://example.se'', domain = ''example.se'',
        siteEmails = [(''info@example.se'',
                       \<lparr>se_email = ''info@example.se'', emailType = Role, se_confidence = 3 / 5,
                        sources = [''mailto''], discoveryPath = ''mailto''\<rparr>)],
        sitePhones = [''+4684002227''],
        siteSocials = \<lparr>linkedin = None, facebook = None, twitterX = None\<rparr>,
        sourcePages = [''https://example.se''], errors = []\<rparr>"
proof -
  have ty: "fst (classifyEmail None ''info@example.se'' ''example.se'') = Role"
    by (simp add: classifyEmail_def ROLE_LOCALPARTS_def str_eval)
  have sc: "scoreEmail ''info@example.se'' Role ''example.se'' = 60"
    by (simp add: scoreEmail_def rawScore_def ROLE_LOCALPARTS_def str_eval)
  show ?thesis
    by (simp add: crawlSite_open example_not_listed pagesToCrawl_1 happy_crawlUrl initialResults_def
          mergePage_def mergeEmail_def mergeSocials_def truthy_def setAdd_def ty sc)
qed

lemma crawlPages_all_failed:
  "(\<forall>u \<in> set us. result (crawlUrl w u h) = None) \<Longrightarrow> crawlPages w mx h r us = r"
  by (induction us) auto

lemma scenario_only_served:
  "map_of served u = None \<Longrightarrow> result (crawlUrl (scenario served) u h) = None"
  by (rule crawlUrl_failure) (simp_all add: scenario_fields scenario_not_served)

lemma pagesToCrawl_root:
  assumes "maxPages = None \<or> (\<exists>N. 1 \<le> N \<and> maxPages = Some N)"
  shows "\<exists>rest. pagesToCrawl rootUrl maxPages = rootUrl # rest \<and> set rest \<subseteq> set (tl (candidates rootUrl))"
proof -
  obtain n where n: "pagesToCrawl rootUrl maxPages = take (Suc n) (candidates rootUrl)"
  proof (cases maxPages)
    case None
    have "pagesToCrawl rootUrl None = take (Suc 4) (candidates rootUrl)"
      by (simp add: pagesToCrawl_def maxPagesOf_def slice0_def)
    with None that show ?thesis by blast
  next
    case (Some N)
    with assms have "1 \<le> N" by auto
    then have "pagesToCrawl rootUrl (Some N) = take (Suc (nat (N - 1))) (candidates rootUrl)"
      by (simp add: pagesToCrawl_positive Suc_nat_eq_nat_zadd1)
    with Some that show ?thesis by blast
  qed
  have "take (Suc n) (candidates rootUrl) = rootUrl # take n (tl (candidates rootUrl))"
    by (simp add: candidates_def)
  moreover have "set (take n (tl (candidates rootUrl))) \<subseteq> set (tl (candidates rootUrl))"
    by (rule set_take_subset)
  ultimately show ?thesis unfolding n by (intro exI [where x = "take n (tl (candidates rootUrl))"]) simp
qed

lemma happy_others_missing:
  "u \<in> set (tl (candidates ''https://example.se'')) \<Longrightarrow> map_of [happyPage] u = None"
  by (auto simp: candidates_def happyPage_def)

lemma happy_site_any:
  assumes "maxPages = None \<or> (\<exists>N. 1 \<le> N \<and> maxPages = Some N)"
  shows "crawlSite (scenario [happyPage]) DNC_LIST None ''https://example.se'' ''example.se'' ''Example AB'' maxPages
     = crawlSite (scenario [happyPage]) DNC_LIST None ''https://example.se'' ''example.se'' ''Example AB'' (Some 1)"
proof -
  obtain rest where rest: "pagesToCrawl ''https://example.se'' maxPages = ''https://example.se'' # rest"
    "set rest \<subseteq> set (tl (candidates ''https://example.se''))"
    using pagesToCrawl_root [OF assms] by blast
  have "\<forall>u \<in> set rest. result (crawlUrl (scenario [happyPage]) u ''example.se'') = None"
    using rest(2) happy_others_missing scenario_only_served by blast
  then have "crawlPages (scenario [happyPage]) None ''example.se'' r rest = r" for r
    by (rule crawlPages_all_failed)
  then show ?thesis
    by (simp add: crawlSite_open example_not_listed rest(1) pagesToCrawl_1 split: option.splits)
qed

text \<open>
  C3, amended: for the site \<open>https://example.se\<close> serving one page with the anchors
  \<open>mailto:info@example.se\<close> and \<open>tel:+4684002227\<close> (and 404 for the other candidate
  pages), crawled with the default or any \<open>maxPages\<close> from 1 on, exactly one contact
  record is emitted, with email \<open>info@example.se\<close>, type role, confidence 0.60 (the score
  60 is 50 + 30 for the domain match + 20 for the role type + 10 for the role local part
  - 50 for containing \<open>example\<close>, over 100), phone \<open>+4684002227\<close> and discovery path
  \<open>mailto\<close>.
\<close>

theorem happy_path_record:
  assumes "maxPages = None \<or> (\<exists>N. 1 \<le> N \<and> maxPages = Some N)"
  shows "toContactRecords now
     (crawlSite (scenario [happyPage]) DNC_LIST None ''https://example.se'' ''example.se'' ''Example AB'' maxPages)
   = Inr [\<lparr>cr_sourceUrl = ''https://example.se'', cr_domain = ''example.se'',
           cr_email = ''info@example.se'', cr_emailType = Role, cr_confidence = 3 / 5,
           cr_discoveryPath = ''mailto'', cr_phone = JString ''+4684002227'', cr_contactPage = JNull,
           cr_social = \<lparr>sa_linkedin = JNull, sa_facebook = JNull, sa_x = JNull\<rparr>,
           cr_rawEvidence = JString ''Sources: mailto'', cr_timestamp = JString now\<rparr>]"
  unfolding happy_site_any [OF assms] happy_site
  by (simp add: toContactRecords_def createContactRecord_def orNull_def orDefault_def toJs_def str_eval)

theorem happy_path_record_witness:
  "toContactRecords ''2026-01-01T00:00:00.000Z''
     (crawlSite (scenario [happyPage]) DNC_LIST None ''https://example.se'' ''example.se'' ''Example AB'' (Some 1))
   = Inr [\<lparr>cr_sourceUrl = ''https://example.se'', cr_domain = ''example.se'',
           cr_email = ''info@example.se'', cr_emailType = Role, cr_confidence = 3 / 5,
           cr_discoveryPath = ''mailto'', cr_phone = JString ''+4684002227'', cr_contactPage = JNull,
           cr_social = \<lparr>sa_linkedin = JNull, sa_facebook = JNull, sa_x = JNull\<rparr>,
           cr_rawEvidence = JString ''Sources: mailto'',
           cr_timestamp = JString ''2026-01-01T00:00:00.000Z''\<rparr>]"
  using happy_path_record [of "Some 1" "''2026-01-01T00:00:00.000Z''"] by simp

end
